theory Spec2Isabelle
  imports Main "HOL-Library.Multiset"
begin

section \<open>Shared data of the two protocol variants\<close>

text \<open>
  The repository holds two variants of package \<open>mp2p\<close> in
  \<^verbatim>\<open>src/go-dht-fire/mp2p/mp2p.go\<close>. The first (protocol \<^verbatim>\<open>/mp2p/bootstrap\<close>) has
  \<open>handleBootstrapStream\<close>, \<open>bootstrap(natAddr, addrText)\<close> and the reconciliation
  goroutine of \<open>Init\<close> over the global \<open>peerMap\<close> guarded by \<open>sm\<close>; the second
  (protocol \<^verbatim>\<open>/p2p/dht\<close>) has \<open>handleStream\<close>, \<open>updatePeer\<close> and \<open>bootstrap(maText)\<close>
  over \<open>peerIpfsMap\<close> guarded by \<open>m\<close>.

  A Go \<open>map[string]string\<close> is a finite map from strings to strings. Strings are byte
  sequences. The global map is passed in and returned; everything else a function does
  (taking and releasing the mutex, reading and writing the map, writing to the
  stream, printing a log line) is appended, in program order, to a trace of events.
\<close>

type_synonym peer_map = "string \<rightharpoonup> string"

datatype error =
  EOF | NotExist | ParseError | ConnectError | StreamError | EncodeError | DecodeError | IOError

text \<open>One constructor per \<open>log.Println\<close> line of the source.\<close>

datatype logline =
    LogStream string string   \<comment> \<open>the handlers' first line: remote peer id and multiaddr\<close>
  | LogReceived string        \<comment> \<open>the text \<open>handleBootstrapStream\<close> read\<close>
  | LogText string            \<comment> \<open>the text \<open>handleStream\<close> read, printed alone\<close>
  | LogDone                   \<comment> \<open>last line of \<open>handleBootstrapStream\<close>\<close>
  | LogSeedConnected string
  | LogBootstrapData string
  | LogPeerConnected string
  | LogFound string           \<comment> \<open>the tick reports a peer it inserted\<close>
  | LogLost string            \<comment> \<open>the tick reports a peer it deleted\<close>
  | LogCount nat              \<comment> \<open>\<open>len(peerMap)\<close> at the end of a tick\<close>
  | LogError error            \<comment> \<open>\<open>log.Println(e)\<close>\<close>

datatype event =
    Lock | Unlock | RLock | RUnlock
  | MapLoad string            \<comment> \<open>a lookup or one step of a \<open>range\<close> over the map\<close>
  | MapStore string string    \<comment> \<open>\<open>peerMap[k] = v\<close>\<close>
  | MapDelete string          \<comment> \<open>\<open>delete(peerMap, k)\<close>\<close>
  | StreamWrite string        \<comment> \<open>a call of \<open>Write\<close> on the stream, with its bytes\<close>
  | Log logline

record node =
  peerMap :: peer_map
  trace :: "event list"

definition emit :: "event list \<Rightarrow> node \<Rightarrow> node" where
  "emit es n = n\<lparr>trace := trace n @ es\<rparr>"

definition store :: "string \<Rightarrow> string \<Rightarrow> node \<Rightarrow> node" where
  "store k v n = n\<lparr>peerMap := (peerMap n)(k \<mapsto> v), trace := trace n @ [MapStore k v]\<rparr>"

definition delete :: "string \<Rightarrow> node \<Rightarrow> node" where
  "delete k n = n\<lparr>peerMap := (peerMap n)(k := None), trace := trace n @ [MapDelete k]\<rparr>"

text \<open>
  Go visits the keys of a map in an unspecified order, each key once. The order a
  \<open>range\<close> loop takes is a parameter \<open>ks\<close> of the model, an enumeration of the keys the
  map has when the loop starts.
\<close>

definition rangeOrder :: "peer_map \<Rightarrow> string list \<Rightarrow> bool" where
  "rangeOrder m ks = (distinct ks \<and> set ks = dom m)"

text \<open>The log lines and the map writes of a trace, by kind.\<close>

fun foundOf :: "event list \<Rightarrow> string list" where
  "foundOf [] = []"
| "foundOf (Log (LogFound k) # es) = k # foundOf es"
| "foundOf (_ # es) = foundOf es"

fun lostOf :: "event list \<Rightarrow> string list" where
  "lostOf [] = []"
| "lostOf (Log (LogLost k) # es) = k # lostOf es"
| "lostOf (_ # es) = lostOf es"

fun storesOf :: "event list \<Rightarrow> (string \<times> string) list" where
  "storesOf [] = []"
| "storesOf (MapStore k v # es) = (k, v) # storesOf es"
| "storesOf (_ # es) = storesOf es"

fun deletesOf :: "event list \<Rightarrow> string list" where
  "deletesOf [] = []"
| "deletesOf (MapDelete k # es) = k # deletesOf es"
| "deletesOf (_ # es) = deletesOf es"

fun writesOf :: "event list \<Rightarrow> string list" where
  "writesOf [] = []"
| "writesOf (StreamWrite b # es) = b # writesOf es"
| "writesOf (_ # es) = writesOf es"

fun errorsOf :: "event list \<Rightarrow> error list" where
  "errorsOf [] = []"
| "errorsOf (Log (LogError e) # es) = e # errorsOf es"
| "errorsOf (_ # es) = errorsOf es"

section \<open>The reconciliation tick (first variant, goroutine of \<open>Init\<close>)\<close>

text \<open>
  One pass of the body of \<^verbatim>\<open>for { ... }\<close>. \<open>kadDHT.RefreshRoutingTable()\<close> and
  \<open>kadDHT.RoutingTable().ListPeers()\<close> belong to the routing library: the list
  \<open>ListPeers\<close> returns is the parameter \<open>listPeers\<close>. The first loop records every
  listed id in the local \<open>idMap\<close> and inserts the ids the map lacks; the second ranges
  over the map and deletes the keys \<open>idMap\<close> lacks.
\<close>

fun listPeersLoop :: "string list \<Rightarrow> (string \<rightharpoonup> int) \<Rightarrow> node \<Rightarrow> (string \<rightharpoonup> int) \<times> node" where
  "listPeersLoop [] idMap n = (idMap, n)"
| "listPeersLoop (peerId # rest) idMap n =
     (case peerMap n peerId of
        Some _ \<Rightarrow> listPeersLoop rest (idMap(peerId \<mapsto> 0)) (emit [MapLoad peerId] n)
      | None \<Rightarrow>
          listPeersLoop rest (idMap(peerId \<mapsto> 0))
            (store peerId '''' (emit [MapLoad peerId, Log (LogFound peerId)] n)))"

text \<open>
  A key deleted before the loop reaches it is not produced by Go's \<open>range\<close>; the loop
  deletes only the key it is at.
\<close>

fun lostLoop :: "string list \<Rightarrow> (string \<rightharpoonup> int) \<Rightarrow> node \<Rightarrow> node" where
  "lostLoop [] idMap n = n"
| "lostLoop (k # ks) idMap n =
     (case peerMap n k of
        None \<Rightarrow> lostLoop ks idMap n
      | Some _ \<Rightarrow>
          (case idMap k of
             Some _ \<Rightarrow> lostLoop ks idMap (emit [MapLoad k] n)
           | None \<Rightarrow> lostLoop ks idMap (delete k (emit [MapLoad k, Log (LogLost k)] n))))"

definition reconcileTick :: "string list \<Rightarrow> string list \<Rightarrow> peer_map \<Rightarrow> node" where
  "reconcileTick listPeers ks m =
     (let n1 = emit [Lock] \<lparr>peerMap = m, trace = []\<rparr>;
          (idMap, n2) = listPeersLoop listPeers Map.empty n1;
          n3 = lostLoop ks idMap n2
      in emit [Log (LogCount (card (dom (peerMap n3)))), Unlock] n3)"

section \<open>Streams and the external libraries\<close>

text \<open>
  A \<open>network.Stream\<close> as a handler or the client sees it: who is at the other end, the
  bytes the other end sends before it closes the stream, and what \<open>Write\<close> and
  \<open>Reset\<close> return.
\<close>

record stream =
  remotePeer :: string                \<comment> \<open>\<open>s.Conn().RemotePeer().String()\<close>\<close>
  remoteMultiaddr :: string           \<comment> \<open>\<open>s.Conn().RemoteMultiaddr().String()\<close>\<close>
  incoming :: string
  writeError :: "error option"
  resetError :: "error option"

record addr_info =
  ID :: string
  Addrs :: "string list"

text \<open>
  The library functions the package calls, as parameters: the multiaddr parser, the
  conversion to a \<open>peer.AddrInfo\<close>, \<open>json.Marshal\<close> on a \<open>[]string\<close>, and the
  unquoting of one JSON string literal (with its quotes; \<open>None\<close> when the literal is
  not a valid one).
\<close>

record lib =
  NewMultiaddr :: "string \<Rightarrow> error + string"
  AddrInfoFromP2pAddr :: "string \<Rightarrow> error + addr_info"
  Marshal :: "string list \<Rightarrow> error + string"
  unquote :: "string \<Rightarrow> string option"

text \<open>
  The network during one run of the client: \<open>Connect net i ai\<close> is what the call of
  \<open>node.Connect\<close> number \<open>i\<close> of the run returns (the seed is dialled as number 0, the
  entry at position \<open>j\<close> of the response as number \<open>j + 1\<close>), \<open>NewStream net id proto\<close>
  what \<open>node.NewStream\<close> returns.
\<close>

record net =
  Connect :: "nat \<Rightarrow> addr_info \<Rightarrow> error option"
  NewStream :: "string \<Rightarrow> string \<Rightarrow> error + stream"

definition NL :: char where
  "NL = CHR 0x0A"

definition PROTOCOL_BOOTSTRAP :: string where
  "PROTOCOL_BOOTSTRAP = ''/mp2p/bootstrap''"

definition PROTOCOL_ID :: string where
  "PROTOCOL_ID = ''/p2p/dht''"

text \<open>
  The two message literals of \<open>handleStream\<close>, as the UTF-8 bytes of the source file:
  the discovery request (U+5F15 U+5BFC) and the greeting (U+4F60 U+597D).
\<close>

definition MSG_BOOTSTRAP :: string where
  "MSG_BOOTSTRAP = [CHR 0xE5, CHR 0xBC, CHR 0x95, CHR 0xE5, CHR 0xAF, CHR 0xBC]"

definition MSG_HI :: string where
  "MSG_HI = [CHR 0xE4, CHR 0xBD, CHR 0xA0, CHR 0xE5, CHR 0xA5, CHR 0xBD]"

text \<open>
  \<open>bufio.Reader.ReadString(delim)\<close> on the bytes a stream delivers: the bytes up to
  and including the first delimiter, or everything and \<open>io.EOF\<close> when the other end
  closes before a delimiter arrives.
\<close>

definition ReadString :: "char \<Rightarrow> string \<Rightarrow> string \<times> error option" where
  "ReadString delim bs =
     (if delim \<in> set bs then (takeWhile (\<lambda>c. c \<noteq> delim) bs @ [delim], None)
      else (bs, Some EOF))"

text \<open>\<open>strings.Replace(text, "\n", "", -1)\<close>: every newline is removed.\<close>

definition dropNewlines :: "string \<Rightarrow> string" where
  "dropNewlines text = filter (\<lambda>c. c \<noteq> NL) text"

definition readTextFormStream :: "stream \<Rightarrow> error + string" where
  "readTextFormStream s =
     (case ReadString NL (incoming s) of
        (text, Some e) \<Rightarrow> Inl e
      | (text, None) \<Rightarrow> Inr (dropNewlines text))"

definition textToAddrInfo :: "lib \<Rightarrow> string \<Rightarrow> error + addr_info" where
  "textToAddrInfo l text =
     (case NewMultiaddr l text of
        Inl e \<Rightarrow> Inl e
      | Inr ma \<Rightarrow>
          (case AddrInfoFromP2pAddr l ma of
             Inl e \<Rightarrow> Inl e
           | Inr ai \<Rightarrow> Inr ai))"

section \<open>Decoding a JSON array of strings\<close>

text \<open>
  \<open>json.Unmarshal(data, &maArray)\<close> with \<open>maArray\<close> a \<open>[]string\<close>, as the library documents
  it: the text must be one JSON value between optional white space; \<open>null\<close> leaves the
  slice nil (length 0); an array gives one element per item, a string literal unquoted,
  a \<open>null\<close> item the empty string; every other text (a syntax error, or a value of
  another type) is an error. The decoder below reads the text byte by byte as the
  library's scanner does; only the unquoting of a string literal is left to
  \<open>unquote\<close>.
\<close>

datatype scan =
    SValue                \<comment> \<open>before the value\<close>
  | SOpen                 \<comment> \<open>after the opening bracket\<close>
  | SComma                \<comment> \<open>after a comma\<close>
  | SStr string           \<comment> \<open>inside a string literal, with its bytes so far\<close>
  | SEsc string           \<comment> \<open>after a backslash inside a string literal\<close>
  | SNull string bool     \<comment> \<open>inside \<open>null\<close>: the bytes still expected; whether it is the whole value\<close>
  | SAfter                \<comment> \<open>after an item\<close>
  | SEnd                  \<comment> \<open>after the value\<close>

definition isSpace :: "char \<Rightarrow> bool" where
  "isSpace c = (c = CHR '' '' \<or> c = CHR 0x09 \<or> c = CHR 0x0D \<or> c = CHR 0x0A)"

definition beginItem :: "char \<Rightarrow> string list \<Rightarrow> (scan \<times> string list) option" where
  "beginItem c acc =
     (if c = CHR 0x22 then Some (SStr [], acc)
      else if c = CHR ''n'' then Some (SNull ''ull'' False, acc)
      else None)"

fun scanStep :: "(string \<Rightarrow> string option) \<Rightarrow> scan \<Rightarrow> string list \<Rightarrow> char \<Rightarrow> (scan \<times> string list) option" where
  "scanStep unq SValue acc c =
     (if isSpace c then Some (SValue, acc)
      else if c = CHR ''['' then Some (SOpen, acc)
      else if c = CHR ''n'' then Some (SNull ''ull'' True, acc)
      else None)"
| "scanStep unq SOpen acc c =
     (if isSpace c then Some (SOpen, acc)
      else if c = CHR '']'' then Some (SEnd, acc)
      else beginItem c acc)"
| "scanStep unq SComma acc c =
     (if isSpace c then Some (SComma, acc) else beginItem c acc)"
| "scanStep unq (SStr raw) acc c =
     (if c = CHR 0x22 then
        (case unq ([CHR 0x22] @ raw @ [CHR 0x22]) of
           None \<Rightarrow> None
         | Some s \<Rightarrow> Some (SAfter, acc @ [s]))
      else if c = CHR 0x5C then Some (SEsc raw, acc)
      else Some (SStr (raw @ [c]), acc))"
| "scanStep unq (SEsc raw) acc c = Some (SStr (raw @ [CHR 0x5C, c]), acc)"
| "scanStep unq (SNull rest whole) acc c =
     (case rest of
        [] \<Rightarrow> None
      | r # rs \<Rightarrow>
          if c \<noteq> r then None
          else if rs \<noteq> [] then Some (SNull rs whole, acc)
          else if whole then Some (SEnd, acc)
          else Some (SAfter, acc @ ['''']))"
| "scanStep unq SAfter acc c =
     (if isSpace c then Some (SAfter, acc)
      else if c = CHR '','' then Some (SComma, acc)
      else if c = CHR '']'' then Some (SEnd, acc)
      else None)"
| "scanStep unq SEnd acc c = (if isSpace c then Some (SEnd, acc) else None)"

fun scanBytes :: "(string \<Rightarrow> string option) \<Rightarrow> scan \<Rightarrow> string list \<Rightarrow> string \<Rightarrow> error + string list" where
  "scanBytes unq st acc [] = (if st = SEnd then Inr acc else Inl DecodeError)"
| "scanBytes unq st acc (c # cs) =
     (case scanStep unq st acc c of
        None \<Rightarrow> Inl DecodeError
      | Some (st', acc') \<Rightarrow> scanBytes unq st' acc' cs)"

definition Unmarshal :: "lib \<Rightarrow> string \<Rightarrow> error + string list" where
  "Unmarshal l data = scanBytes (unquote l) SValue [] data"

section \<open>The inbound handlers\<close>

text \<open>
  Both handlers hold the same two blocks: the \<open>range\<close> over the map that collects the
  value of every key but the sender's (\<open>collectOthers\<close>; \<open>ks\<close> is the order of the
  \<open>range\<close>), and the reply (\<open>replyPeers\<close>): the literal \<open>[]\<close> for an empty list,
  \<open>json.Marshal\<close> of the list otherwise, written with a newline after it. \<open>replyPeers\<close>
  returns whether the handler goes on after it.
\<close>

fun collectOthers :: "string \<Rightarrow> string list \<Rightarrow> string list \<Rightarrow> node \<Rightarrow> string list \<times> node" where
  "collectOthers peerId [] maArray n = (maArray, n)"
| "collectOthers peerId (k # ks) maArray n =
     (case peerMap n k of
        None \<Rightarrow> collectOthers peerId ks maArray n
      | Some v \<Rightarrow>
          if k = peerId then collectOthers peerId ks maArray (emit [MapLoad k] n)
          else collectOthers peerId ks (maArray @ [v]) (emit [MapLoad k] n))"

text \<open>
  The values a map holds at the keys other than \<open>peerId\<close>, in the order \<open>ks\<close>: what the
  loop collects when \<open>ks\<close> enumerates keys of the map.
\<close>

definition othersOf :: "string \<Rightarrow> string list \<Rightarrow> peer_map \<Rightarrow> string list" where
  "othersOf peerId ks m = map (\<lambda>k. the (m k)) (filter (\<lambda>k. k \<noteq> peerId) ks)"

definition replyPeers :: "lib \<Rightarrow> stream \<Rightarrow> string list \<Rightarrow> node \<Rightarrow> bool \<times> node" where
  "replyPeers l s maArray n =
     (case (if length maArray > 0 then Marshal l maArray else Inr ''[]'') of
        Inl e \<Rightarrow> (False, emit [Log (LogError e)] n)
      | Inr jsonText \<Rightarrow>
          (case writeError s of
             Some e \<Rightarrow> (False, emit [StreamWrite (jsonText @ [NL]), Log (LogError e)] n)
           | None \<Rightarrow> (True, emit [StreamWrite (jsonText @ [NL])] n)))"

text \<open>First variant: every line read is a discovery request, its text the payload.\<close>

definition handleBootstrapStream :: "lib \<Rightarrow> stream \<Rightarrow> string list \<Rightarrow> peer_map \<Rightarrow> node" where
  "handleBootstrapStream l s ks m =
     (let peerId = remotePeer s;
          peerMa = remoteMultiaddr s;
          n0 = emit [Log (LogStream peerId peerMa)] \<lparr>peerMap = m, trace = []\<rparr>
      in case readTextFormStream s of
           Inl e \<Rightarrow> emit [Log (LogError e)] n0
         | Inr text \<Rightarrow>
             (let n1 = emit [Log (LogReceived text), Lock] n0;
                  n2 = (if text \<noteq> '''' then store peerId text n1
                        else store peerId (peerMa @ ''/ipfs/'' @ peerId) n1);
                  n3 = emit [Unlock, RLock] n2;
                  (maArray, n4) = collectOthers peerId ks [] n3;
                  n5 = emit [RUnlock] n4;
                  (ok, n6) = replyPeers l s maArray n5
              in if ok then emit [Log LogDone] n6 else n6))"

text \<open>Second variant: the text read selects the branch of the \<open>switch\<close>.\<close>

definition handleStream :: "lib \<Rightarrow> stream \<Rightarrow> string list \<Rightarrow> peer_map \<Rightarrow> node" where
  "handleStream l s ks m =
     (let streamPeerId = remotePeer s;
          streamPeerMa = remoteMultiaddr s;
          n0 = emit [Log (LogStream streamPeerId streamPeerMa)] \<lparr>peerMap = m, trace = []\<rparr>
      in case ReadString NL (incoming s) of
           (txt0, Some e) \<Rightarrow> emit [Log (LogError e)] n0
         | (txt0, None) \<Rightarrow>
             (let txt = dropNewlines txt0;
                  n1 = emit [Log (LogText txt)] n0
              in if txt = MSG_BOOTSTRAP then
                   (let n2 = store streamPeerId (streamPeerMa @ ''/ipfs/'' @ streamPeerId)
                               (emit [Lock] n1);
                        n3 = emit [Unlock, RLock] n2;
                        (idArray, n4) = collectOthers streamPeerId ks [] n3;
                        n5 = emit [RUnlock] n4
                    in snd (replyPeers l s idArray n5))
                 else if txt = MSG_HI then
                   (case writeError s of
                      Some e \<Rightarrow> emit [StreamWrite (''Fine!'' @ [NL]), Log (LogError e)] n1
                    | None \<Rightarrow> emit [StreamWrite (''Fine!'' @ [NL])] n1)
                 else n1))"

section \<open>The outbound bootstrap client\<close>

text \<open>
  First variant, the loop over the decoded response (\<open>for _, v := range maArray\<close> of
  \<open>bootstrap\<close>); \<open>i\<close> numbers the call of \<open>node.Connect\<close> the entry at hand would make.
  Both \<open>continue\<close> statements skip the rest of the body, the assignment to the map
  included. The function takes no lock.
\<close>

fun connectLoop :: "lib \<Rightarrow> net \<Rightarrow> nat \<Rightarrow> string list \<Rightarrow> node \<Rightarrow> node" where
  "connectLoop l net i [] n = n"
| "connectLoop l net i (v # vs) n =
     (case textToAddrInfo l v of
        Inl e \<Rightarrow> connectLoop l net (Suc i) vs (emit [Log (LogError e)] n)
      | Inr addrInfo \<Rightarrow>
          (case Connect net i addrInfo of
             Some e \<Rightarrow> connectLoop l net (Suc i) vs (emit [Log (LogError e)] n)
           | None \<Rightarrow>
               connectLoop l net (Suc i) vs
                 (store (ID addrInfo) v (emit [Log (LogPeerConnected v)] n))))"

definition bootstrap :: "lib \<Rightarrow> net \<Rightarrow> string \<Rightarrow> string \<Rightarrow> peer_map \<Rightarrow> error option \<times> node" where
  "bootstrap l net natAddr addrText m =
     (let n0 = \<lparr>peerMap = m, trace = []\<rparr> in
      case textToAddrInfo l addrText of
        Inl e \<Rightarrow> (Some e, n0)
      | Inr ai \<Rightarrow>
     (case Connect net 0 ai of
        Some e \<Rightarrow> (Some e, n0)
      | None \<Rightarrow>
     (let n1 = emit [Log (LogSeedConnected addrText)] n0 in
      case NewStream net (ID ai) PROTOCOL_BOOTSTRAP of
        Inl e \<Rightarrow> (Some e, n1)
      | Inr s \<Rightarrow>
     (let n2 = emit [StreamWrite (natAddr @ ''/n'')] n1 in
      case writeError s of
        Some e \<Rightarrow> (Some e, n2)
      | None \<Rightarrow>
     (case readTextFormStream s of
        Inl e \<Rightarrow> (Some e, n2)
      | Inr text \<Rightarrow>
     (let n3 = emit [Log (LogBootstrapData text)] n2 in
      case resetError s of
        Some e \<Rightarrow> (Some e, n3)
      | None \<Rightarrow>
     (case Unmarshal l text of
        Inl e \<Rightarrow> (Some e, n3)
      | Inr maArray \<Rightarrow> (None, connectLoop l net 1 maArray n3))))))))"

text \<open>Second variant: \<open>updatePeer\<close> dials nobody; it takes no lock either.\<close>

fun updateLoop :: "lib \<Rightarrow> string list \<Rightarrow> node \<Rightarrow> node" where
  "updateLoop l [] n = n"
| "updateLoop l (v # vs) n =
     (case textToAddrInfo l v of
        Inl e \<Rightarrow> updateLoop l vs (emit [Log (LogError e)] n)
      | Inr addrInfo \<Rightarrow> updateLoop l vs (store (ID addrInfo) v n))"

definition updatePeer :: "lib \<Rightarrow> string \<Rightarrow> node \<Rightarrow> node" where
  "updatePeer l jsonText n =
     (case Unmarshal l jsonText of
        Inl e \<Rightarrow> emit [Log (LogError e)] n
      | Inr maTextArray \<Rightarrow> updateLoop l maTextArray n)"

text \<open>\<open>bootstrap(maText)\<close> of the second variant.\<close>

definition bootstrap2 :: "lib \<Rightarrow> net \<Rightarrow> string \<Rightarrow> peer_map \<Rightarrow> error option \<times> node" where
  "bootstrap2 l net maText m =
     (let n0 = \<lparr>peerMap = m, trace = []\<rparr> in
      case textToAddrInfo l maText of
        Inl e \<Rightarrow> (Some e, n0)
      | Inr ai \<Rightarrow>
     (case Connect net 0 ai of
        Some e \<Rightarrow> (Some e, n0)
      | None \<Rightarrow>
     (let n1 = emit [Log (LogSeedConnected maText)] n0 in
      case NewStream net (ID ai) PROTOCOL_ID of
        Inl e \<Rightarrow> (Some e, n1)
      | Inr s \<Rightarrow>
     (let n2 = emit [StreamWrite (MSG_BOOTSTRAP @ [NL])] n1 in
      case writeError s of
        Some e \<Rightarrow> (Some e, n2)
      | None \<Rightarrow>
     (case ReadString NL (incoming s) of
        (txt0, Some e) \<Rightarrow> (Some e, n2)
      | (txt0, None) \<Rightarrow>
     (let txt = dropNewlines txt0;
          n3 = emit [Log (LogBootstrapData txt)] n2 in
      case resetError s of
        Some e \<Rightarrow> (Some e, n3)
      | None \<Rightarrow> (None, updatePeer l txt n3)))))))"

section \<open>The mutex around the map\<close>

text \<open>
  What one goroutine holds of the \<open>sync.RWMutex\<close> as its trace goes by, and whether
  every access to the map in the trace is made under the lock it needs: a store or a
  delete under the exclusive lock, a load under either.
\<close>

datatype held = Free | Shared | Exclusive

fun lockDiscipline :: "held \<Rightarrow> event list \<Rightarrow> bool" where
  "lockDiscipline h [] = True"
| "lockDiscipline h (Lock # es) = lockDiscipline Exclusive es"
| "lockDiscipline h (Unlock # es) = lockDiscipline Free es"
| "lockDiscipline h (RLock # es) = lockDiscipline Shared es"
| "lockDiscipline h (RUnlock # es) = lockDiscipline Free es"
| "lockDiscipline h (MapStore k v # es) = (h = Exclusive \<and> lockDiscipline h es)"
| "lockDiscipline h (MapDelete k # es) = (h = Exclusive \<and> lockDiscipline h es)"
| "lockDiscipline h (MapLoad k # es) = (h \<noteq> Free \<and> lockDiscipline h es)"
| "lockDiscipline h (_ # es) = lockDiscipline h es"

text \<open>What is held after a trace.\<close>

fun heldAfter :: "held \<Rightarrow> event list \<Rightarrow> held" where
  "heldAfter h [] = h"
| "heldAfter h (Lock # es) = heldAfter Exclusive es"
| "heldAfter h (Unlock # es) = heldAfter Free es"
| "heldAfter h (RLock # es) = heldAfter Shared es"
| "heldAfter h (RUnlock # es) = heldAfter Free es"
| "heldAfter h (_ # es) = heldAfter h es"

section \<open>The key pair (\<open>rsaKey\<close>)\<close>

text \<open>
  The operating system and the crypto library as \<open>rsaKey\<close> calls them, each function
  with the result tuple it has in Go; a key is an interface value, \<open>None\<close> when nil.
  \<open>crypto.MarshalPrivateKey\<close> and \<open>crypto.MarshalPublicKey\<close> call a method of the key
  they are given, so they are functions of a key that is not nil: called on a nil key
  they dereference nil and the program panics.

  \<open>rsaKey\<close> has two results, the keys, and no error result; it assigns every error but
  the one of \<open>MkdirAll\<close> to the blank identifier. When key generation fails the keys
  it goes on with are nil, and the call of the encoder on the nil key panics. So a run
  of \<open>rsaKey\<close> ends in one of two ways: it returns the keys, or it panics, with the
  effects it had until then.
\<close>

datatype privKey = PrivKey string
datatype pubKey = PubKey string

record os =
  Stat :: "string \<Rightarrow> error option"
  IsNotExist :: "error option \<Rightarrow> bool"
  MkdirAll :: "string \<Rightarrow> error option"
  GenerateKeyPair :: "privKey option \<times> pubKey option \<times> error option"
  MarshalPrivateKey :: "privKey \<Rightarrow> string \<times> error option"
  MarshalPublicKey :: "pubKey \<Rightarrow> string \<times> error option"
  WriteFile :: "string \<Rightarrow> string \<Rightarrow> error option"
  ReadFile :: "string \<Rightarrow> string \<times> error option"
  UnmarshalPrivateKey :: "string \<Rightarrow> privKey option \<times> error option"
  UnmarshalPublicKey :: "string \<Rightarrow> pubKey option \<times> error option"

datatype fsevent =
    LogKeyDir string
  | LogMkdirError error
  | FileWrite string string

record keys =
  prKey :: "privKey option"
  puKey :: "pubKey option"
  effects :: "fsevent list"

datatype ending =
    Returned keys
  | Panicked "fsevent list"   \<comment> \<open>nil dereference in an encoder, after these effects\<close>

definition rsaKey :: "os \<Rightarrow> string \<Rightarrow> ending" where
  "rsaKey os dir =
     (let privatePath = dir @ ''/'' @ ''private'';
          publicPath = dir @ ''/'' @ ''public''
      in if IsNotExist os (Stat os dir) then
           (case MkdirAll os dir of
              Some e \<Rightarrow>
                Returned \<lparr>prKey = None, puKey = None, effects = [LogKeyDir dir, LogMkdirError e]\<rparr>
            | None \<Rightarrow>
                (case GenerateKeyPair os of
                   (None, pu, _) \<Rightarrow> Panicked [LogKeyDir dir]
                 | (Some pr, pu, _) \<Rightarrow>
                     (let privateKeyBytes = fst (MarshalPrivateKey os pr) in
                      case pu of
                        None \<Rightarrow> Panicked [LogKeyDir dir, FileWrite privatePath privateKeyBytes]
                      | Some pk \<Rightarrow>
                          (let publicKeyBytes = fst (MarshalPublicKey os pk) in
                           Returned \<lparr>prKey = Some pr, puKey = Some pk,
                             effects = [LogKeyDir dir, FileWrite privatePath privateKeyBytes,
                                        FileWrite publicPath publicKeyBytes]\<rparr>))))
         else
           (let privateKeyBytes = fst (ReadFile os privatePath);
                publicKeyBytes = fst (ReadFile os publicPath)
            in Returned \<lparr>prKey = fst (UnmarshalPrivateKey os privateKeyBytes),
                 puKey = fst (UnmarshalPublicKey os publicKeyBytes),
                 effects = [LogKeyDir dir]\<rparr>))"

section \<open>Concrete collaborators for the examples\<close>

text \<open>
  A library, two networks and an operating system to run the functions on: a text
  parses when it starts with a slash, and the peer id is what follows its last slash;
  a list is encoded as its quoted items between brackets, and a literal is unquoted by
  dropping its quotes.
\<close>

fun exampleItems :: "string list \<Rightarrow> string" where
  "exampleItems [] = []"
| "exampleItems [x] = [CHR 0x22] @ x @ [CHR 0x22]"
| "exampleItems (x # y # ys) = [CHR 0x22] @ x @ [CHR 0x22] @ '','' @ exampleItems (y # ys)"

definition exampleLib :: lib where
  "exampleLib =
     \<lparr>NewMultiaddr = (\<lambda>t. if take 1 t = ''/'' then Inr t else Inl ParseError),
      AddrInfoFromP2pAddr =
        (\<lambda>ma. Inr \<lparr>ID = rev (takeWhile (\<lambda>c. c \<noteq> CHR ''/'') (rev ma)), Addrs = [ma]\<rparr>),
      Marshal = (\<lambda>xs. Inr (''['' @ exampleItems xs @ '']'')),
      unquote = (\<lambda>s. if 2 \<le> length s then Some (butlast (tl s)) else None)\<rparr>"

text \<open>
  A seed that answers with the list \<open>resp\<close>; in \<open>seedOnlyNet\<close> every dial after the one
  of the seed fails, in \<open>openNet\<close> every dial succeeds.
\<close>

definition seedStream :: "string \<Rightarrow> string \<Rightarrow> stream" where
  "seedStream peerId resp =
     \<lparr>remotePeer = peerId, remoteMultiaddr = ''/ip4/10.0.0.1'', incoming = resp,
      writeError = None, resetError = None\<rparr>"

definition seedOnlyNet :: "string \<Rightarrow> net" where
  "seedOnlyNet resp =
     \<lparr>Connect = (\<lambda>i ai. if i = 0 then None else Some ConnectError),
      NewStream = (\<lambda>peerId proto. Inr (seedStream peerId resp))\<rparr>"

definition openNet :: "string \<Rightarrow> net" where
  "openNet resp =
     \<lparr>Connect = (\<lambda>i ai. None),
      NewStream = (\<lambda>peerId proto. Inr (seedStream peerId resp))\<rparr>"

text \<open>The response of a seed that knows one peer, \<open>QmB\<close>.\<close>

definition oneConnectString :: string where
  "oneConnectString = ''/ip4/10.0.0.2/ipfs/QmB''"

definition onePeerJson :: string where
  "onePeerJson = ''['' @ [CHR 0x22] @ oneConnectString @ [CHR 0x22] @ '']''"

definition onePeerResponse :: string where
  "onePeerResponse = onePeerJson @ [NL]"

text \<open>
  An inbound stream from peer \<open>QmP\<close> that sends the line \<open>line\<close>.
\<close>

definition inboundStream :: "string \<Rightarrow> stream" where
  "inboundStream line =
     \<lparr>remotePeer = ''QmP'', remoteMultiaddr = ''/ip4/10.0.0.3'', incoming = line @ [NL],
      writeError = None, resetError = None\<rparr>"

text \<open>
  Operating systems for \<open>rsaKey\<close>. In \<open>noKeys\<close> the key directory exists, every call
  fails and no key is ever produced. In \<open>mkdirFails\<close> the directory is missing and
  cannot be created. In \<open>freshDir\<close> it is missing and is created, and key generation
  fails; in \<open>freshKeys\<close> generation gives a pair. In \<open>halfPair\<close> the generator gives a
  private key and a nil public key. In \<open>corruptKeys\<close> the directory exists and the
  two files hold bytes that are not keys.
\<close>

definition noKeys :: "os" where
  "noKeys =
     \<lparr>Stat = (\<lambda>p. None),
      IsNotExist = (\<lambda>e. False),
      MkdirAll = (\<lambda>p. None),
      GenerateKeyPair = (None, None, Some IOError),
      MarshalPrivateKey = (\<lambda>k. ([], Some EncodeError)),
      MarshalPublicKey = (\<lambda>k. ([], Some EncodeError)),
      WriteFile = (\<lambda>p b. Some IOError),
      ReadFile = (\<lambda>p. ([], Some IOError)),
      UnmarshalPrivateKey = (\<lambda>b. (None, Some DecodeError)),
      UnmarshalPublicKey = (\<lambda>b. (None, Some DecodeError))\<rparr>"

definition mkdirFails :: "os" where
  "mkdirFails =
     noKeys\<lparr>Stat := (\<lambda>p. Some NotExist), IsNotExist := (\<lambda>e. e = Some NotExist),
            MkdirAll := (\<lambda>p. Some IOError)\<rparr>"

definition freshDir :: "os" where
  "freshDir = mkdirFails\<lparr>MkdirAll := (\<lambda>p. None)\<rparr>"

definition freshKeys :: "os" where
  "freshKeys =
     freshDir\<lparr>GenerateKeyPair := (Some (PrivKey ''d''), Some (PubKey ''e''), None),
              MarshalPrivateKey := (\<lambda>k. (''private bytes'', None)),
              MarshalPublicKey := (\<lambda>k. (''public bytes'', None)),
              WriteFile := (\<lambda>p b. None)\<rparr>"

definition halfPair :: "os" where
  "halfPair = freshKeys\<lparr>GenerateKeyPair := (Some (PrivKey ''d''), None, Some IOError)\<rparr>"

definition corruptKeys :: "os" where
  "corruptKeys = noKeys\<lparr>ReadFile := (\<lambda>p. (''garbage'', None))\<rparr>"

section \<open>Traces by kind\<close>

lemma foundOf_append: "foundOf (xs @ ys) = foundOf xs @ foundOf ys"
  by (induction xs rule: foundOf.induct) simp_all

lemma lostOf_append: "lostOf (xs @ ys) = lostOf xs @ lostOf ys"
  by (induction xs rule: lostOf.induct) simp_all

lemma storesOf_append: "storesOf (xs @ ys) = storesOf xs @ storesOf ys"
  by (induction xs rule: storesOf.induct) simp_all

lemma deletesOf_append: "deletesOf (xs @ ys) = deletesOf xs @ deletesOf ys"
  by (induction xs rule: deletesOf.induct) simp_all

lemma writesOf_append: "writesOf (xs @ ys) = writesOf xs @ writesOf ys"
  by (induction xs rule: writesOf.induct) simp_all

lemma errorsOf_append: "errorsOf (xs @ ys) = errorsOf xs @ errorsOf ys"
  by (induction xs rule: errorsOf.induct) simp_all

lemmas kind_append =
  foundOf_append lostOf_append storesOf_append deletesOf_append writesOf_append errorsOf_append

section \<open>The reconciliation tick: the diff\<close>

subsection \<open>The first loop inserts the listed ids the map lacks\<close>

lemma listPeersLoop_map:
  "peerMap (snd (listPeersLoop B idMap n)) k =
     (if k \<in> set B \<and> peerMap n k = None then Some '''' else peerMap n k)"
  by (induction B arbitrary: idMap n) (auto simp: emit_def store_def split: option.splits)

lemma listPeersLoop_dom:
  "dom (peerMap (snd (listPeersLoop B idMap n))) = dom (peerMap n) \<union> set B"
  by (auto simp: listPeersLoop_map dom_def)

lemma listPeersLoop_idMap:
  "dom (fst (listPeersLoop B idMap n)) = dom idMap \<union> set B"
  by (induction B arbitrary: idMap n) (auto split: option.splits)

lemma listPeersLoop_found_set:
  "set (foundOf (trace (snd (listPeersLoop B idMap n)))) =
     set (foundOf (trace n)) \<union> (set B - dom (peerMap n))"
  by (induction B arbitrary: idMap n)
     (auto simp: emit_def store_def kind_append split: option.splits)

text \<open>
  An id is reported as found once: what has been reported is in the map, and only an
  id the map lacks is reported.
\<close>

lemma listPeersLoop_found_distinct:
  "distinct (foundOf (trace n)) \<Longrightarrow> set (foundOf (trace n)) \<subseteq> dom (peerMap n) \<Longrightarrow>
   distinct (foundOf (trace (snd (listPeersLoop B idMap n))))"
proof (induction B arbitrary: idMap n)
  case Nil
  then show ?case by simp
next
  case (Cons p B)
  show ?case
  proof (cases "peerMap n p")
    case None
    let ?n' = "store p '''' (emit [MapLoad p, Log (LogFound p)] n)"
    have "p \<notin> set (foundOf (trace n))"
      using Cons.prems(2) None by auto
    then have "distinct (foundOf (trace ?n'))"
      and "set (foundOf (trace ?n')) \<subseteq> dom (peerMap ?n')"
      using Cons.prems by (auto simp: emit_def store_def kind_append)
    then show ?thesis
      using Cons.IH [of ?n'] None by simp
  next
    case (Some v)
    let ?n' = "emit [MapLoad p] n"
    have "distinct (foundOf (trace ?n'))"
      and "set (foundOf (trace ?n')) \<subseteq> dom (peerMap ?n')"
      using Cons.prems by (auto simp: emit_def kind_append)
    then show ?thesis
      using Cons.IH [of ?n'] Some by simp
  qed
qed

lemma listPeersLoop_stores_found:
  "storesOf (trace n) = map (\<lambda>k. (k, '''')) (foundOf (trace n)) \<Longrightarrow>
   storesOf (trace (snd (listPeersLoop B idMap n))) =
     map (\<lambda>k. (k, '''')) (foundOf (trace (snd (listPeersLoop B idMap n))))"
  by (induction B arbitrary: idMap n)
     (auto simp: emit_def store_def kind_append split: option.splits)

lemma listPeersLoop_lost:
  "lostOf (trace (snd (listPeersLoop B idMap n))) = lostOf (trace n)"
  by (induction B arbitrary: idMap n)
     (auto simp: emit_def store_def kind_append split: option.splits)

lemma listPeersLoop_deletes:
  "deletesOf (trace (snd (listPeersLoop B idMap n))) = deletesOf (trace n)"
  by (induction B arbitrary: idMap n)
     (auto simp: emit_def store_def kind_append split: option.splits)

subsection \<open>The second loop deletes the keys that were not listed\<close>

lemma lostLoop_map:
  "peerMap (lostLoop ks idMap n) k =
     (if k \<in> set ks \<and> idMap k = None then None else peerMap n k)"
  by (induction ks arbitrary: n) (auto simp: emit_def delete_def split: option.splits)

lemma lostLoop_found:
  "foundOf (trace (lostLoop ks idMap n)) = foundOf (trace n)"
  by (induction ks arbitrary: n) (auto simp: emit_def delete_def kind_append split: option.splits)

lemma lostLoop_stores:
  "storesOf (trace (lostLoop ks idMap n)) = storesOf (trace n)"
  by (induction ks arbitrary: n) (auto simp: emit_def delete_def kind_append split: option.splits)

lemma lostLoop_lost_set:
  "set (lostOf (trace (lostLoop ks idMap n))) =
     set (lostOf (trace n)) \<union> {k \<in> set ks. k \<in> dom (peerMap n) \<and> idMap k = None}"
  by (induction ks arbitrary: n) (auto simp: emit_def delete_def kind_append split: option.splits)

lemma lostLoop_deletes:
  "deletesOf (trace n) = lostOf (trace n) \<Longrightarrow>
   deletesOf (trace (lostLoop ks idMap n)) = lostOf (trace (lostLoop ks idMap n))"
  by (induction ks arbitrary: n) (auto simp: emit_def delete_def kind_append split: option.splits)

lemma lostLoop_lost_distinct:
  "distinct (lostOf (trace n)) \<Longrightarrow> set (lostOf (trace n)) \<inter> dom (peerMap n) = {} \<Longrightarrow>
   distinct (lostOf (trace (lostLoop ks idMap n)))"
proof (induction ks arbitrary: n)
  case Nil
  then show ?case by simp
next
  case (Cons k ks)
  show ?case
  proof (cases "peerMap n k")
    case None
    then show ?thesis
      using Cons by simp
  next
    case present: (Some v)
    show ?thesis
    proof (cases "idMap k")
      case None
      let ?n' = "delete k (emit [MapLoad k, Log (LogLost k)] n)"
      have "k \<notin> set (lostOf (trace n))"
        using Cons.prems(2) present by auto
      then have "distinct (lostOf (trace ?n'))"
        and "set (lostOf (trace ?n')) \<inter> dom (peerMap ?n') = {}"
        using Cons.prems by (auto simp: emit_def delete_def kind_append)
      then show ?thesis
        using Cons.IH [of ?n'] None present by simp
    next
      case (Some w)
      let ?n' = "emit [MapLoad k] n"
      have "distinct (lostOf (trace ?n'))"
        and "set (lostOf (trace ?n')) \<inter> dom (peerMap ?n') = {}"
        using Cons.prems by (auto simp: emit_def kind_append)
      then show ?thesis
        using Cons.IH [of ?n'] Some present by simp
    qed
  qed
qed

subsection \<open>One tick\<close>

text \<open>
  The keys the map has when the second loop starts are those it had and those listed,
  so these are what an order of that \<open>range\<close> enumerates.
\<close>

lemma rangeOrder_second_loop:
  "rangeOrder (peerMap (snd (listPeersLoop B Map.empty (emit [Lock] \<lparr>peerMap = m, trace = []\<rparr>)))) ks
     \<longleftrightarrow> distinct ks \<and> set ks = dom m \<union> set B"
  by (simp add: rangeOrder_def listPeersLoop_dom emit_def)

text \<open>A finite map has such an order.\<close>

lemma rangeOrder_exists: "finite (dom m) \<Longrightarrow> \<exists>ks. rangeOrder m ks"
  using finite_distinct_list [of "dom m"] by (auto simp: rangeOrder_def)

text \<open>
  C1. For a map with key set \<open>dom m\<close> and a list \<open>B\<close> of visible ids, whatever order
  \<open>ks\<close> the \<open>range\<close> of the second loop takes, after one tick the key set of the map is
  exactly \<open>set B\<close>; every id of \<open>B\<close> that was not a key is inserted with the empty
  connect string and reported as found, once; every key that is not in \<open>B\<close> is deleted
  and reported as lost, once; a key that is in \<open>B\<close> keeps its value. The stores of the
  tick are exactly the insertions reported and its deletes exactly the losses reported,
  so a key of both sets is neither inserted, nor deleted, nor reported.
\<close>

theorem reconcile_tick_diff:
  assumes "distinct ks" and "set ks = dom m \<union> set B"
  shows "dom (peerMap (reconcileTick B ks m)) = set B
    \<and> (\<forall>k \<in> set B - dom m. peerMap (reconcileTick B ks m) k = Some '''')
    \<and> (\<forall>k \<in> dom m \<inter> set B. peerMap (reconcileTick B ks m) k = m k)
    \<and> distinct (foundOf (trace (reconcileTick B ks m)))
    \<and> set (foundOf (trace (reconcileTick B ks m))) = set B - dom m
    \<and> distinct (lostOf (trace (reconcileTick B ks m)))
    \<and> set (lostOf (trace (reconcileTick B ks m))) = dom m - set B
    \<and> storesOf (trace (reconcileTick B ks m)) =
        map (\<lambda>k. (k, '''')) (foundOf (trace (reconcileTick B ks m)))
    \<and> deletesOf (trace (reconcileTick B ks m)) = lostOf (trace (reconcileTick B ks m))"
proof -
  define n1 where "n1 = emit [Lock] \<lparr>peerMap = m, trace = []\<rparr>"
  define idMap where "idMap = fst (listPeersLoop B Map.empty n1)"
  define n2 where "n2 = snd (listPeersLoop B Map.empty n1)"
  define n3 where "n3 = lostLoop ks idMap n2"
  let ?r = "reconcileTick B ks m"
  have tick: "?r = emit [Log (LogCount (card (dom (peerMap n3)))), Unlock] n3"
    by (simp add: reconcileTick_def n1_def idMap_def n2_def n3_def Let_def split: prod.splits)
  have m1: "peerMap n1 = m" and t1: "trace n1 = [Lock]"
    by (simp_all add: n1_def emit_def)
  have "dom idMap = set B"
    using listPeersLoop_idMap [of B Map.empty n1] by (simp add: idMap_def)
  then have idm: "idMap k = None \<longleftrightarrow> k \<notin> set B" for k
    by (metis domIff)
  have m2: "peerMap n2 k = (if k \<in> set B \<and> m k = None then Some '''' else m k)" for k
    by (simp add: n2_def listPeersLoop_map m1)
  have m3: "peerMap n3 k = (if k \<in> set ks \<and> k \<notin> set B then None else peerMap n2 k)" for k
    by (simp add: n3_def lostLoop_map idm)
  have pm: "peerMap ?r k =
      (if k \<in> set B then (if m k = None then Some '''' else m k) else None)" for k
    using assms(2) by (auto simp: tick emit_def m3 m2 dom_def)
  have c1: "dom (peerMap ?r) = set B"
    by (auto simp: pm dom_def split: if_splits)
  have c2: "\<forall>k \<in> set B - dom m. peerMap ?r k = Some ''''"
    by (auto simp: pm dom_def)
  have c3: "\<forall>k \<in> dom m \<inter> set B. peerMap ?r k = m k"
    by (auto simp: pm dom_def)
  have f2: "foundOf (trace ?r) = foundOf (trace n2)"
    by (simp add: tick emit_def kind_append n3_def lostLoop_found)
  have c4: "distinct (foundOf (trace ?r))"
    unfolding f2 n2_def by (rule listPeersLoop_found_distinct) (simp_all add: t1)
  have c5: "set (foundOf (trace ?r)) = set B - dom m"
    unfolding f2 n2_def by (simp add: listPeersLoop_found_set t1 m1)
  have l2: "lostOf (trace n2) = []"
    by (simp add: n2_def listPeersLoop_lost t1)
  have l3: "lostOf (trace ?r) = lostOf (trace n3)"
    by (simp add: tick emit_def kind_append)
  have c6: "distinct (lostOf (trace ?r))"
    unfolding l3 n3_def by (rule lostLoop_lost_distinct) (simp_all add: l2)
  have c7: "set (lostOf (trace ?r)) = dom m - set B"
    unfolding l3 n3_def
    using assms(2) by (auto simp: lostLoop_lost_set l2 idm m2 dom_def split: if_splits)
  have "storesOf (trace n2) = map (\<lambda>k. (k, '''')) (foundOf (trace n2))"
    unfolding n2_def by (rule listPeersLoop_stores_found) (simp add: t1)
  then have c8: "storesOf (trace ?r) = map (\<lambda>k. (k, '''')) (foundOf (trace ?r))"
    by (simp add: tick emit_def kind_append n3_def lostLoop_stores lostLoop_found)
  have "deletesOf (trace n3) = lostOf (trace n3)"
    unfolding n3_def
    by (rule lostLoop_deletes) (simp add: n2_def listPeersLoop_deletes listPeersLoop_lost t1)
  then have c9: "deletesOf (trace ?r) = lostOf (trace ?r)"
    by (simp add: tick emit_def kind_append)
  from c1 c2 c3 c4 c5 c6 c7 c8 c9 show ?thesis
    by blast
qed

text \<open>
  The theorem at a map with keys \<open>a\<close> and \<open>b\<close> and the visible ids \<open>b\<close> and \<open>c\<close>, the
  second loop visiting \<open>c\<close>, \<open>a\<close>, \<open>b\<close>: \<open>c\<close> is found, \<open>a\<close> is lost, \<open>b\<close> keeps its
  value.
\<close>

theorem reconcile_tick_diff_witness:
  "distinct [''c'', ''a'', ''b'']
   \<and> set [''c'', ''a'', ''b''] = dom [''a'' \<mapsto> ''x'', ''b'' \<mapsto> ''y''] \<union> set [''b'', ''c'']
   \<and> dom (peerMap (reconcileTick [''b'', ''c''] [''c'', ''a'', ''b''] [''a'' \<mapsto> ''x'', ''b'' \<mapsto> ''y'']))
       = {''b'', ''c''}
   \<and> peerMap (reconcileTick [''b'', ''c''] [''c'', ''a'', ''b''] [''a'' \<mapsto> ''x'', ''b'' \<mapsto> ''y'']) ''b''
       = Some ''y''
   \<and> peerMap (reconcileTick [''b'', ''c''] [''c'', ''a'', ''b''] [''a'' \<mapsto> ''x'', ''b'' \<mapsto> ''y'']) ''c''
       = Some ''''
   \<and> set (foundOf (trace (reconcileTick [''b'', ''c''] [''c'', ''a'', ''b''] [''a'' \<mapsto> ''x'', ''b'' \<mapsto> ''y''])))
       = {''c''}
   \<and> set (lostOf (trace (reconcileTick [''b'', ''c''] [''c'', ''a'', ''b''] [''a'' \<mapsto> ''x'', ''b'' \<mapsto> ''y''])))
       = {''a''}"
proof -
  have d: "distinct [''c'', ''a'', ''b'']"
    by simp
  have s: "set [''c'', ''a'', ''b''] = dom [''a'' \<mapsto> ''x'', ''b'' \<mapsto> ''y''] \<union> set [''b'', ''c'']"
    by auto
  show ?thesis
    using d s reconcile_tick_diff [OF d s] by auto
qed

section \<open>The inbound handlers\<close>

subsection \<open>Reading the request\<close>

lemma readText_ReadString:
  "readTextFormStream s = Inr text \<longleftrightarrow>
     (\<exists>txt0. ReadString NL (incoming s) = (txt0, None) \<and> text = dropNewlines txt0)"
  by (auto simp: readTextFormStream_def split: prod.splits option.splits)

lemma ReadString_line:
  "NL \<notin> set line \<Longrightarrow> ReadString NL (line @ [NL] @ rest) = (line @ [NL], None)"
  by (auto simp: ReadString_def takeWhile_tail takeWhile_eq_all_conv)

lemma dropNewlines_line:
  "NL \<notin> set line \<Longrightarrow> dropNewlines (line @ [NL]) = line"
  by (auto simp: dropNewlines_def filter_id_conv)

lemma readText_line:
  "NL \<notin> set line \<Longrightarrow> incoming s = line @ [NL] \<Longrightarrow> readTextFormStream s = Inr line"
  using ReadString_line [of line "[]"] by (simp add: readTextFormStream_def dropNewlines_line)

subsection \<open>The loop that collects the other entries\<close>

lemma collectOthers_fst:
  "fst (collectOthers P ks acc n) =
     acc @ map (\<lambda>k. the (peerMap n k)) (filter (\<lambda>k. k \<in> dom (peerMap n) \<and> k \<noteq> P) ks)"
  by (induction ks arbitrary: acc n) (auto simp: emit_def split: option.splits)

lemma collectOthers_map:
  "peerMap (snd (collectOthers P ks acc n)) = peerMap n"
  by (induction ks arbitrary: acc n) (auto simp: emit_def split: option.splits)

lemma collectOthers_trace:
  "trace (snd (collectOthers P ks acc n)) =
     trace n @ map MapLoad (filter (\<lambda>k. k \<in> dom (peerMap n)) ks)"
  by (induction ks arbitrary: acc n) (auto simp: emit_def split: option.splits)

lemma kinds_MapLoad:
  "writesOf (map MapLoad ks) = []" "storesOf (map MapLoad ks) = []"
  "deletesOf (map MapLoad ks) = []" "errorsOf (map MapLoad ks) = []"
  by (induction ks) simp_all

text \<open>
  After the sender's entry is stored, the keys other than the sender's are those of
  the map before, with the values they had.
\<close>

lemma collectOthers_upserted:
  assumes "set ks \<subseteq> insert P (dom m)"
  shows "fst (collectOthers P ks [] \<lparr>peerMap = m(P \<mapsto> v), trace = t\<rparr>) = othersOf P ks m"
proof -
  have "filter (\<lambda>k. k \<in> dom (m(P \<mapsto> v)) \<and> k \<noteq> P) ks = filter (\<lambda>k. k \<noteq> P) ks"
    using assms by (intro filter_cong) auto
  then show ?thesis
    by (simp add: collectOthers_fst othersOf_def)
qed

lemma mset_othersOf:
  assumes "distinct ks" and "set ks = insert P (dom m)"
  shows "mset (othersOf P ks m) = image_mset (\<lambda>k. the (m k)) (mset_set (dom m - {P}))"
proof -
  have "distinct (filter (\<lambda>k. k \<noteq> P) ks)"
    using assms(1) by simp
  moreover have "set (filter (\<lambda>k. k \<noteq> P) ks) = dom m - {P}"
    using assms(2) by auto
  ultimately have "mset (filter (\<lambda>k. k \<noteq> P) ks) = mset_set (dom m - {P})"
    by (metis mset_set_set)
  then show ?thesis
    by (simp add: othersOf_def)
qed

subsection \<open>What a handler does with a request it has read\<close>

lemma handleBootstrapStream_map:
  "readTextFormStream s = Inr text \<Longrightarrow>
   peerMap (handleBootstrapStream l s ks m) =
     m(remotePeer s \<mapsto> (if text \<noteq> [] then text else remoteMultiaddr s @ ''/ipfs/'' @ remotePeer s))"
  by (simp add: handleBootstrapStream_def Let_def split_beta collectOthers_map replyPeers_def
      emit_def store_def split: sum.splits option.splits)

lemma handleBootstrapStream_stores:
  "readTextFormStream s = Inr text \<Longrightarrow>
   storesOf (trace (handleBootstrapStream l s ks m)) =
     [(remotePeer s, if text \<noteq> [] then text else remoteMultiaddr s @ ''/ipfs/'' @ remotePeer s)]"
  by (simp add: handleBootstrapStream_def Let_def split_beta collectOthers_trace replyPeers_def
      emit_def store_def kind_append kinds_MapLoad split: sum.splits option.splits)

lemma handleBootstrapStream_writes:
  assumes "readTextFormStream s = Inr text" and "set ks \<subseteq> insert (remotePeer s) (dom m)"
  shows "writesOf (trace (handleBootstrapStream l s ks m)) =
     (case (if othersOf (remotePeer s) ks m = [] then Inr ''[]''
            else Marshal l (othersOf (remotePeer s) ks m)) of
        Inl e \<Rightarrow> []
      | Inr jsonText \<Rightarrow> [jsonText @ [NL]])"
  using assms(1)
  by (simp add: handleBootstrapStream_def Let_def split_beta collectOthers_trace
      collectOthers_upserted [OF assms(2)] replyPeers_def emit_def store_def kind_append
      kinds_MapLoad split: sum.splits option.splits)

lemma handleStream_discovery_map:
  "readTextFormStream s = Inr MSG_BOOTSTRAP \<Longrightarrow>
   peerMap (handleStream l s ks m) =
     m(remotePeer s \<mapsto> remoteMultiaddr s @ ''/ipfs/'' @ remotePeer s)"
  by (auto simp: readText_ReadString handleStream_def Let_def split_beta collectOthers_map
      replyPeers_def emit_def store_def split: sum.splits option.splits)

lemma handleStream_discovery_writes:
  assumes "readTextFormStream s = Inr MSG_BOOTSTRAP"
    and "set ks \<subseteq> insert (remotePeer s) (dom m)"
  shows "writesOf (trace (handleStream l s ks m)) =
     (case (if othersOf (remotePeer s) ks m = [] then Inr ''[]''
            else Marshal l (othersOf (remotePeer s) ks m)) of
        Inl e \<Rightarrow> []
      | Inr jsonText \<Rightarrow> [jsonText @ [NL]])"
proof -
  obtain txt0 where r: "ReadString NL (incoming s) = (txt0, None)"
    and t: "dropNewlines txt0 = MSG_BOOTSTRAP"
    using assms(1) by (auto simp: readText_ReadString)
  show ?thesis
    by (simp add: handleStream_def r t Let_def split_beta collectOthers_trace
        collectOthers_upserted [OF assms(2)] replyPeers_def emit_def store_def kind_append
        kinds_MapLoad split: sum.splits option.splits)
qed

lemma handleStream_other:
  assumes "readTextFormStream s = Inr txt" and "txt \<noteq> MSG_BOOTSTRAP" and "txt \<noteq> MSG_HI"
  shows "handleStream l s ks m =
     \<lparr>peerMap = m, trace = [Log (LogStream (remotePeer s) (remoteMultiaddr s)), Log (LogText txt)]\<rparr>"
proof -
  obtain txt0 where r: "ReadString NL (incoming s) = (txt0, None)"
    and t: "dropNewlines txt0 = txt"
    using assms(1) by (auto simp: readText_ReadString)
  show ?thesis
    using assms(2,3) by (simp add: handleStream_def r t Let_def emit_def)
qed

text \<open>
  C5. Whatever the map holds and whoever asks, the list a handler encodes into its
  discovery response is made of the connect strings of the entries other than the
  requester's, each once (\<open>othersOf\<close>, in the order of the \<open>range\<close>), and of nothing of
  the requester's own entry: as a multiset it is the image of the keys other than the
  requester's. The handler writes the literal \<open>[]\<close> when that list is empty and its
  \<open>json.Marshal\<close> otherwise, followed by a newline. \<open>ks\<close> enumerates the keys of the map
  once the requester's entry is stored.
\<close>

theorem discovery_response_excludes_requester:
  assumes "distinct ks" and "set ks = insert (remotePeer s) (dom m)"
  shows "mset (othersOf (remotePeer s) ks m)
           = image_mset (\<lambda>k. the (m k)) (mset_set (dom m - {remotePeer s}))
    \<and> (readTextFormStream s = Inr text \<longrightarrow>
         writesOf (trace (handleBootstrapStream l s ks m)) =
           (case (if othersOf (remotePeer s) ks m = [] then Inr ''[]''
                  else Marshal l (othersOf (remotePeer s) ks m)) of
              Inl e \<Rightarrow> []
            | Inr jsonText \<Rightarrow> [jsonText @ [NL]]))
    \<and> (readTextFormStream s = Inr MSG_BOOTSTRAP \<longrightarrow>
         writesOf (trace (handleStream l s ks m)) =
           (case (if othersOf (remotePeer s) ks m = [] then Inr ''[]''
                  else Marshal l (othersOf (remotePeer s) ks m)) of
              Inl e \<Rightarrow> []
            | Inr jsonText \<Rightarrow> [jsonText @ [NL]]))"
proof -
  have sub: "set ks \<subseteq> insert (remotePeer s) (dom m)"
    using assms(2) by simp
  show ?thesis
    using mset_othersOf [OF assms] handleBootstrapStream_writes [OF _ sub]
      handleStream_discovery_writes [OF _ sub]
    by blast
qed

text \<open>
  The theorem at a map that knows the requester \<open>QmP\<close> and one other peer, for a
  request whose line is the discovery literal of the second variant (the first variant
  takes the same line as a payload): both handlers answer with the other peer's
  connect string only.
\<close>

lemma MSG_BOOTSTRAP_line: "NL \<notin> set MSG_BOOTSTRAP"
  by (simp add: MSG_BOOTSTRAP_def NL_def)

lemma read_inboundStream:
  "NL \<notin> set line \<Longrightarrow> readTextFormStream (inboundStream line) = Inr line"
  by (rule readText_line) (simp_all add: inboundStream_def)

theorem discovery_response_excludes_requester_witness:
  "distinct [''QmA'', ''QmP'']
   \<and> set [''QmA'', ''QmP'']
       = insert (remotePeer (inboundStream MSG_BOOTSTRAP)) (dom [''QmP'' \<mapsto> ''addrP'', ''QmA'' \<mapsto> ''addrA''])
   \<and> readTextFormStream (inboundStream MSG_BOOTSTRAP) = Inr MSG_BOOTSTRAP
   \<and> othersOf ''QmP'' [''QmA'', ''QmP''] [''QmP'' \<mapsto> ''addrP'', ''QmA'' \<mapsto> ''addrA''] = [''addrA'']
   \<and> writesOf (trace (handleBootstrapStream exampleLib (inboundStream MSG_BOOTSTRAP)
         [''QmA'', ''QmP''] [''QmP'' \<mapsto> ''addrP'', ''QmA'' \<mapsto> ''addrA'']))
       = [''['' @ [CHR 0x22] @ ''addrA'' @ [CHR 0x22] @ '']'' @ [NL]]
   \<and> writesOf (trace (handleStream exampleLib (inboundStream MSG_BOOTSTRAP)
         [''QmA'', ''QmP''] [''QmP'' \<mapsto> ''addrP'', ''QmA'' \<mapsto> ''addrA'']))
       = [''['' @ [CHR 0x22] @ ''addrA'' @ [CHR 0x22] @ '']'' @ [NL]]"
proof -
  let ?s = "inboundStream MSG_BOOTSTRAP"
  let ?m = "[''QmP'' \<mapsto> ''addrP'', ''QmA'' \<mapsto> ''addrA'']"
  have p: "remotePeer ?s = ''QmP''"
    by (simp add: inboundStream_def)
  have d: "distinct [''QmA'', ''QmP'']"
    by simp
  have k: "set [''QmA'', ''QmP''] = insert (remotePeer ?s) (dom ?m)"
    by (auto simp: p)
  have r: "readTextFormStream ?s = Inr MSG_BOOTSTRAP"
    by (rule read_inboundStream) (rule MSG_BOOTSTRAP_line)
  have o: "othersOf ''QmP'' [''QmA'', ''QmP''] ?m = [''addrA'']"
    by (simp add: othersOf_def)
  show ?thesis
    using discovery_response_excludes_requester [OF d k, of MSG_BOOTSTRAP exampleLib] d k r
    by (simp add: p o exampleLib_def)
qed

subsection \<open>The empty response\<close>

lemma collectOthers_alone:
  assumes "dom m \<subseteq> {P}"
  shows "fst (collectOthers P ks [] \<lparr>peerMap = m(P \<mapsto> v), trace = t\<rparr>) = []"
proof -
  have "filter (\<lambda>k. k \<in> dom (m(P \<mapsto> v)) \<and> k \<noteq> P) ks = []"
    using assms by (auto simp: filter_empty_conv)
  then show ?thesis
    by (simp add: collectOthers_fst)
qed

lemma handleBootstrapStream_alone:
  assumes "readTextFormStream s = Inr text" and "dom m \<subseteq> {remotePeer s}"
  shows "writesOf (trace (handleBootstrapStream l s ks m)) = [''[]'' @ [NL]]"
  using assms(1)
  by (simp add: handleBootstrapStream_def Let_def split_beta collectOthers_trace
      collectOthers_alone [OF assms(2)] replyPeers_def emit_def store_def kind_append
      kinds_MapLoad split: sum.splits option.splits)

lemma handleStream_alone:
  assumes "readTextFormStream s = Inr MSG_BOOTSTRAP" and "dom m \<subseteq> {remotePeer s}"
  shows "writesOf (trace (handleStream l s ks m)) = [''[]'' @ [NL]]"
proof -
  obtain txt0 where r: "ReadString NL (incoming s) = (txt0, None)"
    and t: "dropNewlines txt0 = MSG_BOOTSTRAP"
    using assms(1) by (auto simp: readText_ReadString)
  show ?thesis
    by (simp add: handleStream_def r t Let_def split_beta collectOthers_trace
        collectOthers_alone [OF assms(2)] replyPeers_def emit_def store_def kind_append
        kinds_MapLoad split: sum.splits option.splits)
qed

lemma Unmarshal_empty_array: "Unmarshal l ''[]'' = Inr []"
  by (simp add: Unmarshal_def isSpace_def)

text \<open>
  C8. When the map holds no entry other than the requester's, a handler that has read
  a discovery request writes exactly the two characters \<open>[]\<close> followed by a newline,
  whatever the order \<open>ks\<close>; a client that reads this line from its stream \<open>c\<close> gets the
  text \<open>[]\<close>, and decoding it as JSON gives the empty list.
\<close>

theorem empty_discovery_response:
  assumes "dom m \<subseteq> {remotePeer s}"
  shows "(readTextFormStream s = Inr text \<longrightarrow>
           writesOf (trace (handleBootstrapStream l s ks m)) = [''[]'' @ [NL]])
    \<and> (readTextFormStream s = Inr MSG_BOOTSTRAP \<longrightarrow>
           writesOf (trace (handleStream l s ks m)) = [''[]'' @ [NL]])
    \<and> length ''[]'' = 2
    \<and> readTextFormStream (c\<lparr>incoming := ''[]'' @ [NL]\<rparr>) = Inr ''[]''
    \<and> Unmarshal l ''[]'' = Inr []"
proof -
  have "readTextFormStream (c\<lparr>incoming := ''[]'' @ [NL]\<rparr>) = Inr ''[]''"
    by (rule readText_line) (simp_all add: NL_def)
  then show ?thesis
    using handleBootstrapStream_alone [OF _ assms] handleStream_alone [OF _ assms]
      Unmarshal_empty_array
    by simp
qed

text \<open>The theorem at a map that holds the requester's entry only.\<close>

theorem empty_discovery_response_witness:
  "dom [''QmP'' \<mapsto> ''addrP''] \<subseteq> {remotePeer (inboundStream MSG_BOOTSTRAP)}
   \<and> readTextFormStream (inboundStream MSG_BOOTSTRAP) = Inr MSG_BOOTSTRAP
   \<and> writesOf (trace (handleBootstrapStream exampleLib (inboundStream MSG_BOOTSTRAP) [''QmP'']
         [''QmP'' \<mapsto> ''addrP''])) = [''[]'' @ [NL]]
   \<and> writesOf (trace (handleStream exampleLib (inboundStream MSG_BOOTSTRAP) [''QmP'']
         [''QmP'' \<mapsto> ''addrP''])) = [''[]'' @ [NL]]
   \<and> readTextFormStream ((seedStream ''QmS'' [])\<lparr>incoming := ''[]'' @ [NL]\<rparr>) = Inr ''[]''
   \<and> Unmarshal exampleLib ''[]'' = Inr []"
proof -
  have a: "dom [''QmP'' \<mapsto> ''addrP''] \<subseteq> {remotePeer (inboundStream MSG_BOOTSTRAP)}"
    by (simp add: inboundStream_def)
  have r: "readTextFormStream (inboundStream MSG_BOOTSTRAP) = Inr MSG_BOOTSTRAP"
    by (rule read_inboundStream) (rule MSG_BOOTSTRAP_line)
  show ?thesis
    using empty_discovery_response [OF a, of MSG_BOOTSTRAP exampleLib "[''QmP'']" "seedStream ''QmS'' []"]
      a r
    by blast
qed

subsection \<open>A line that is neither literal\<close>

lemma handleBootstrapStream_replies:
  assumes "readTextFormStream s = Inr text" and "\<forall>xs e. Marshal l xs \<noteq> Inl e"
  shows "length (writesOf (trace (handleBootstrapStream l s ks m))) = 1"
  using assms
  by (simp add: handleBootstrapStream_def Let_def split_beta collectOthers_trace
      replyPeers_def emit_def store_def kind_append kinds_MapLoad
      split: sum.splits option.splits)

text \<open>
  C10, as the code has it. \<open>handleStream\<close> selects on the line it read: for a line that
  is neither the discovery literal nor the greeting literal it leaves the map as it
  was, writes nothing to the stream, logs no error, and its trace holds the two log
  lines of every request and nothing else. \<open>handleBootstrapStream\<close> has no literals:
  whatever line it read, it stores the sender's entry (the line itself when not empty,
  else the address made from the stream) and, unless \<open>json.Marshal\<close> fails, writes one
  reply.
\<close>

theorem unrecognized_message_by_handler:
  assumes "readTextFormStream s = Inr txt"
  shows "(txt \<noteq> MSG_BOOTSTRAP \<and> txt \<noteq> MSG_HI \<longrightarrow>
            peerMap (handleStream l s ks m) = m
          \<and> writesOf (trace (handleStream l s ks m)) = []
          \<and> errorsOf (trace (handleStream l s ks m)) = []
          \<and> trace (handleStream l s ks m) =
              [Log (LogStream (remotePeer s) (remoteMultiaddr s)), Log (LogText txt)])
    \<and> peerMap (handleBootstrapStream l s ks m) =
        m(remotePeer s \<mapsto> (if txt \<noteq> [] then txt else remoteMultiaddr s @ ''/ipfs/'' @ remotePeer s))
    \<and> storesOf (trace (handleBootstrapStream l s ks m)) =
        [(remotePeer s, if txt \<noteq> [] then txt else remoteMultiaddr s @ ''/ipfs/'' @ remotePeer s)]
    \<and> ((\<forall>xs e. Marshal l xs \<noteq> Inl e) \<longrightarrow>
          length (writesOf (trace (handleBootstrapStream l s ks m))) = 1)"
  using handleStream_other [OF assms, of l ks m] handleBootstrapStream_map [OF assms, of l ks m]
    handleBootstrapStream_stores [OF assms, of l ks m]
    handleBootstrapStream_replies [OF assms, of l ks m]
  by simp

text \<open>The theorem at the line \<open>hello\<close> sent by \<open>QmP\<close> to a node that knows nobody.\<close>

lemma hello_line:
  "NL \<notin> set ''hello''" "''hello'' \<noteq> MSG_BOOTSTRAP" "''hello'' \<noteq> MSG_HI"
  by (simp_all add: NL_def MSG_BOOTSTRAP_def MSG_HI_def)

theorem unrecognized_message_by_handler_witness:
  "readTextFormStream (inboundStream ''hello'') = Inr ''hello''
   \<and> ''hello'' \<noteq> MSG_BOOTSTRAP \<and> ''hello'' \<noteq> MSG_HI
   \<and> (\<forall>xs e. Marshal exampleLib xs \<noteq> Inl e)
   \<and> peerMap (handleStream exampleLib (inboundStream ''hello'') [] Map.empty) = Map.empty
   \<and> writesOf (trace (handleStream exampleLib (inboundStream ''hello'') [] Map.empty)) = []
   \<and> errorsOf (trace (handleStream exampleLib (inboundStream ''hello'') [] Map.empty)) = []
   \<and> peerMap (handleBootstrapStream exampleLib (inboundStream ''hello'') [''QmP''] Map.empty)
       = [''QmP'' \<mapsto> ''hello'']
   \<and> length (writesOf (trace (handleBootstrapStream exampleLib (inboundStream ''hello'') [''QmP'']
         Map.empty))) = 1"
proof -
  have r: "readTextFormStream (inboundStream ''hello'') = Inr ''hello''"
    by (rule read_inboundStream) (rule hello_line)
  have e: "\<forall>xs e. Marshal exampleLib xs \<noteq> Inl e"
    by (simp add: exampleLib_def)
  have p: "remotePeer (inboundStream ''hello'') = ''QmP''"
    by (simp add: inboundStream_def)
  show ?thesis
    using unrecognized_message_by_handler [OF r, of exampleLib "[]" Map.empty]
      unrecognized_message_by_handler [OF r, of exampleLib "[''QmP'']" Map.empty]
      r e hello_line
    by (simp add: p)
qed

text \<open>
  The claim as stated fails on \<open>handleBootstrapStream\<close>: the line \<open>hello\<close> is neither
  literal, yet the handler changes the map and writes a reply.
\<close>

theorem unrecognized_message_counterexample:
  "readTextFormStream (inboundStream ''hello'') = Inr ''hello''
   \<and> ''hello'' \<noteq> MSG_BOOTSTRAP \<and> ''hello'' \<noteq> MSG_HI
   \<and> peerMap (handleBootstrapStream exampleLib (inboundStream ''hello'') [''QmP''] Map.empty)
       \<noteq> Map.empty
   \<and> peerMap (handleBootstrapStream exampleLib (inboundStream ''hello'') [''QmP''] Map.empty) ''QmP''
       = Some ''hello''
   \<and> writesOf (trace (handleBootstrapStream exampleLib (inboundStream ''hello'') [''QmP'']
         Map.empty)) = [''[]'' @ [NL]]"
proof -
  have r: "readTextFormStream (inboundStream ''hello'') = Inr ''hello''"
    by (rule read_inboundStream) (rule hello_line)
  have p: "remotePeer (inboundStream ''hello'') = ''QmP''"
    by (simp add: inboundStream_def)
  have m: "peerMap (handleBootstrapStream exampleLib (inboundStream ''hello'') [''QmP''] Map.empty)
      = [''QmP'' \<mapsto> ''hello'']"
    by (simp add: handleBootstrapStream_map [OF r] p)
  have w: "writesOf (trace (handleBootstrapStream exampleLib (inboundStream ''hello'') [''QmP'']
         Map.empty)) = [''[]'' @ [NL]]"
    by (rule handleBootstrapStream_alone [OF r]) simp
  have "[''QmP'' \<mapsto> ''hello''] ''QmP'' \<noteq> Map.empty ''QmP''"
    by simp
  then have "[''QmP'' \<mapsto> ''hello''] \<noteq> (Map.empty :: peer_map)"
    by metis
  then show ?thesis
    using r hello_line m w by simp
qed

section \<open>The outbound bootstrap client\<close>

subsection \<open>The loop of the first variant\<close>

lemma connectLoop_stores_set:
  "set (storesOf (trace (connectLoop l net i xs n))) =
     set (storesOf (trace n)) \<union>
     {(ID ai, xs ! j) | j ai.
        j < length xs \<and> textToAddrInfo l (xs ! j) = Inr ai \<and> Connect net (i + j) ai = None}"
proof (induction xs arbitrary: i n)
  case Nil
  then show ?case by simp
next
  case (Cons v vs)
  let ?A = "\<lambda>i xs. {(ID ai, xs ! j) | j ai.
        j < length xs \<and> textToAddrInfo l (xs ! j) = Inr ai \<and> Connect net (i + j) ai = None}"
  have shift: "?A i (v # vs) =
      {(ID ai, v) | ai. textToAddrInfo l v = Inr ai \<and> Connect net i ai = None} \<union> ?A (Suc i) vs"
  proof (intro set_eqI iffI)
    fix p
    assume "p \<in> ?A i (v # vs)"
    then obtain j ai where j: "j < length (v # vs)" "p = (ID ai, (v # vs) ! j)"
      "textToAddrInfo l ((v # vs) ! j) = Inr ai" "Connect net (i + j) ai = None"
      by blast
    show "p \<in> {(ID ai, v) | ai. textToAddrInfo l v = Inr ai \<and> Connect net i ai = None} \<union> ?A (Suc i) vs"
    proof (cases j)
      case 0
      then show ?thesis using j by auto
    next
      case (Suc j')
      then have "j' < length vs" "p = (ID ai, vs ! j')" "textToAddrInfo l (vs ! j') = Inr ai"
        "Connect net (Suc i + j') ai = None"
        using j by auto
      then show ?thesis by blast
    qed
  next
    fix p
    assume "p \<in> {(ID ai, v) | ai. textToAddrInfo l v = Inr ai \<and> Connect net i ai = None} \<union> ?A (Suc i) vs"
    then consider (head) ai where "p = (ID ai, v)" "textToAddrInfo l v = Inr ai" "Connect net i ai = None"
      | (tail) j ai where "j < length vs" "p = (ID ai, vs ! j)" "textToAddrInfo l (vs ! j) = Inr ai"
          "Connect net (Suc i + j) ai = None"
      by blast
    then show "p \<in> ?A i (v # vs)"
    proof cases
      case head
      then have "0 < length (v # vs)" "p = (ID ai, (v # vs) ! 0)"
        "textToAddrInfo l ((v # vs) ! 0) = Inr ai" "Connect net (i + 0) ai = None"
        by simp_all
      then show ?thesis by blast
    next
      case tail
      then have "Suc j < length (v # vs)" "p = (ID ai, (v # vs) ! Suc j)"
        "textToAddrInfo l ((v # vs) ! Suc j) = Inr ai" "Connect net (i + Suc j) ai = None"
        by simp_all
      then show ?thesis by blast
    qed
  qed
  show ?case
    unfolding shift
    by (auto simp: Cons.IH emit_def store_def kind_append split: sum.splits option.splits)
qed

lemma connectLoop_count:
  "length (storesOf (trace (connectLoop l net i xs n))) + length (errorsOf (trace (connectLoop l net i xs n)))
     = length (storesOf (trace n)) + length (errorsOf (trace n)) + length xs"
  by (induction xs arbitrary: i n)
     (auto simp: emit_def store_def kind_append split: sum.splits option.splits)

text \<open>
  The map is the one before with the stores of the trace applied in order; \<open>store\<close>
  and \<open>emit\<close> keep it so.
\<close>

lemma connectLoop_map:
  "peerMap n = m ++ map_of (rev (storesOf (trace n))) \<Longrightarrow>
   peerMap (connectLoop l net i xs n) = m ++ map_of (rev (storesOf (trace (connectLoop l net i xs n))))"
  by (induction xs arbitrary: i n)
     (auto simp: emit_def store_def kind_append split: sum.splits option.splits)

lemma connectLoop_dom:
  "dom (peerMap n) \<subseteq> dom (peerMap (connectLoop l net i xs n))"
proof (induction xs arbitrary: i n)
  case Nil
  then show ?case by simp
next
  case (Cons v vs)
  show ?case
  proof (cases "textToAddrInfo l v")
    case (Inl e)
    then show ?thesis
      using Cons.IH [where i = "Suc i" and n = "emit [Log (LogError e)] n"] by (simp add: emit_def)
  next
    case (Inr ai)
    show ?thesis
    proof (cases "Connect net i ai")
      case None
      let ?n' = "store (ID ai) v (emit [Log (LogPeerConnected v)] n)"
      have "dom (peerMap n) \<subseteq> dom (peerMap ?n')"
        by (auto simp: emit_def store_def)
      also have "\<dots> \<subseteq> dom (peerMap (connectLoop l net (Suc i) vs ?n'))"
        by (rule Cons.IH)
      finally show ?thesis
        using None Inr by simp
    next
      case (Some e)
      then show ?thesis
        using Inr Cons.IH [where i = "Suc i" and n = "emit [Log (LogError e)] n"] by (simp add: emit_def)
    qed
  qed
qed

lemma connectLoop_deletes:
  "deletesOf (trace (connectLoop l net i xs n)) = deletesOf (trace n)"
  by (induction xs arbitrary: i n)
     (auto simp: emit_def store_def kind_append split: sum.splits option.splits)

lemma connectLoop_writes:
  "writesOf (trace (connectLoop l net i xs n)) = writesOf (trace n)"
  by (induction xs arbitrary: i n)
     (auto simp: emit_def store_def kind_append split: sum.splits option.splits)

text \<open>An entry that does not parse costs a log line; the loop goes on from there.\<close>

lemma connectLoop_append:
  "connectLoop l net i (xs @ ys) n = connectLoop l net (i + length xs) ys (connectLoop l net i xs n)"
  by (induction xs arbitrary: i n) (auto split: sum.splits option.splits)

lemma connectLoop_malformed:
  "textToAddrInfo l v = Inl e \<Longrightarrow>
   connectLoop l net i (xs @ v # ys) n =
     connectLoop l net (Suc (i + length xs)) ys (emit [Log (LogError e)] (connectLoop l net i xs n))"
  by (simp add: connectLoop_append)

subsection \<open>The loop of the second variant\<close>

lemma updateLoop_stores:
  "storesOf (trace (updateLoop l xs n)) =
     storesOf (trace n) @
     map (\<lambda>v. (ID (projr (textToAddrInfo l v)), v)) (filter (\<lambda>v. \<not> isl (textToAddrInfo l v)) xs)"
  by (induction xs arbitrary: n)
     (auto simp: emit_def store_def kind_append split: sum.splits)

lemma updateLoop_errors:
  "errorsOf (trace (updateLoop l xs n)) =
     errorsOf (trace n) @ map projl (filter isl (map (textToAddrInfo l) xs))"
  by (induction xs arbitrary: n)
     (auto simp: emit_def store_def kind_append split: sum.splits)

lemma updateLoop_map:
  "peerMap n = m ++ map_of (rev (storesOf (trace n))) \<Longrightarrow>
   peerMap (updateLoop l xs n) = m ++ map_of (rev (storesOf (trace (updateLoop l xs n))))"
  by (induction xs arbitrary: n)
     (auto simp: emit_def store_def kind_append split: sum.splits)

lemma updateLoop_dom:
  "dom (peerMap (updateLoop l xs n)) =
     dom (peerMap n) \<union> {ID ai | v ai. v \<in> set xs \<and> textToAddrInfo l v = Inr ai}"
  by (induction xs arbitrary: n)
     (auto simp: emit_def store_def split: sum.splits)

lemma updateLoop_deletes:
  "deletesOf (trace (updateLoop l xs n)) = deletesOf (trace n)"
  by (induction xs arbitrary: n)
     (auto simp: emit_def store_def kind_append split: sum.splits)

lemma updateLoop_append:
  "updateLoop l (xs @ ys) n = updateLoop l ys (updateLoop l xs n)"
  by (induction xs arbitrary: n) (auto split: sum.splits)

lemma updateLoop_malformed:
  "textToAddrInfo l v = Inl e \<Longrightarrow>
   updateLoop l (xs @ v # ys) n = updateLoop l ys (emit [Log (LogError e)] (updateLoop l xs n))"
  by (simp add: updateLoop_append)

lemma updateLoop_stores_set:
  "set (storesOf (trace (updateLoop l xs \<lparr>peerMap = m, trace = []\<rparr>))) =
     {(ID ai, v) | v ai. v \<in> set xs \<and> textToAddrInfo l v = Inr ai}"
proof -
  have "(\<lambda>v. (ID (projr (textToAddrInfo l v)), v)) ` {v \<in> set xs. \<not> isl (textToAddrInfo l v)}
      = {(ID ai, v) | v ai. v \<in> set xs \<and> textToAddrInfo l v = Inr ai}"
  proof (intro set_eqI iffI)
    fix p
    assume "p \<in> (\<lambda>v. (ID (projr (textToAddrInfo l v)), v)) ` {v \<in> set xs. \<not> isl (textToAddrInfo l v)}"
    then obtain v where v: "v \<in> set xs" "\<not> isl (textToAddrInfo l v)"
      "p = (ID (projr (textToAddrInfo l v)), v)"
      by blast
    then obtain ai where "textToAddrInfo l v = Inr ai"
      by (cases "textToAddrInfo l v") auto
    then show "p \<in> {(ID ai, v) | v ai. v \<in> set xs \<and> textToAddrInfo l v = Inr ai}"
      using v by auto
  next
    fix p
    assume "p \<in> {(ID ai, v) | v ai. v \<in> set xs \<and> textToAddrInfo l v = Inr ai}"
    then obtain v ai where v: "v \<in> set xs" "textToAddrInfo l v = Inr ai" "p = (ID ai, v)"
      by blast
    then have "v \<in> {v \<in> set xs. \<not> isl (textToAddrInfo l v)}"
      and "p = (ID (projr (textToAddrInfo l v)), v)"
      by simp_all
    then show "p \<in> (\<lambda>v. (ID (projr (textToAddrInfo l v)), v)) ` {v \<in> set xs. \<not> isl (textToAddrInfo l v)}"
      by blast
  qed
  then show ?thesis
    by (simp add: updateLoop_stores)
qed

subsection \<open>From \<open>bootstrap\<close> to its loop\<close>

lemma bootstrap_reaches_loop:
  assumes "textToAddrInfo l addrText = Inr ai" and "Connect net 0 ai = None"
    and "NewStream net (ID ai) PROTOCOL_BOOTSTRAP = Inr s" and "writeError s = None"
    and "readTextFormStream s = Inr text" and "resetError s = None"
    and "Unmarshal l text = Inr maArray"
  shows "bootstrap l net natAddr addrText m =
     (None, connectLoop l net 1 maArray
        \<lparr>peerMap = m,
         trace = [Log (LogSeedConnected addrText), StreamWrite (natAddr @ ''/n''),
                  Log (LogBootstrapData text)]\<rparr>)"
  using assms by (simp add: bootstrap_def Let_def emit_def)

lemma bootstrap2_reaches_updatePeer:
  assumes "textToAddrInfo l maText = Inr ai" and "Connect net 0 ai = None"
    and "NewStream net (ID ai) PROTOCOL_ID = Inr s" and "writeError s = None"
    and "readTextFormStream s = Inr txt" and "resetError s = None"
  shows "bootstrap2 l net maText m =
     (None, updatePeer l txt
        \<lparr>peerMap = m,
         trace = [Log (LogSeedConnected maText), StreamWrite (MSG_BOOTSTRAP @ [NL]),
                  Log (LogBootstrapData txt)]\<rparr>)"
proof -
  obtain txt0 where r: "ReadString NL (incoming s) = (txt0, None)"
    and t: "dropNewlines txt0 = txt"
    using assms(5) by (auto simp: readText_ReadString)
  show ?thesis
    using assms(1,2,3,4,6) by (simp add: bootstrap2_def Let_def emit_def r t)
qed

text \<open>Whatever happens, all that \<open>bootstrap\<close> ever writes is its request.\<close>

lemma bootstrap_writes_slash_n:
  "writesOf (trace (snd (bootstrap l net natAddr addrText m))) = []
   \<or> writesOf (trace (snd (bootstrap l net natAddr addrText m))) = [natAddr @ ''/n'']"
  by (simp add: bootstrap_def Let_def emit_def connectLoop_writes kind_append
      split: sum.splits option.splits)

subsection \<open>The examples, evaluated\<close>

lemma parse_seed:
  "textToAddrInfo exampleLib ''/ip4/10.0.0.1/ipfs/QmS''
     = Inr \<lparr>ID = ''QmS'', Addrs = [''/ip4/10.0.0.1/ipfs/QmS'']\<rparr>"
  by (simp add: textToAddrInfo_def exampleLib_def)

lemma parse_one:
  "textToAddrInfo exampleLib oneConnectString = Inr \<lparr>ID = ''QmB'', Addrs = [oneConnectString]\<rparr>"
  by (simp add: textToAddrInfo_def exampleLib_def oneConnectString_def)

lemma parse_bad: "textToAddrInfo exampleLib ''bad'' = Inl ParseError"
  by (simp add: textToAddrInfo_def exampleLib_def)

lemma read_onePeerResponse:
  "readTextFormStream (seedStream peerId onePeerResponse)
     = Inr onePeerJson"
  by (rule readText_line)
     (simp_all add: seedStream_def onePeerResponse_def onePeerJson_def oneConnectString_def NL_def)

lemma decode_onePeerResponse:
  "Unmarshal exampleLib onePeerJson
     = Inr [oneConnectString]"
  by (simp add: Unmarshal_def exampleLib_def onePeerJson_def oneConnectString_def isSpace_def
      beginItem_def)

lemma Connect_seedOnlyNet:
  "Connect (seedOnlyNet resp) i ai = (if i = 0 then None else Some ConnectError)"
  by (simp add: seedOnlyNet_def)

lemma Connect_openNet: "Connect (openNet resp) i ai = None"
  by (simp add: openNet_def)

lemma bootstrap_seedOnly:
  "bootstrap exampleLib (seedOnlyNet onePeerResponse) natAddr ''/ip4/10.0.0.1/ipfs/QmS'' m =
     (None, connectLoop exampleLib (seedOnlyNet onePeerResponse) 1 [oneConnectString]
        \<lparr>peerMap = m,
         trace = [Log (LogSeedConnected ''/ip4/10.0.0.1/ipfs/QmS''), StreamWrite (natAddr @ ''/n''),
                  Log (LogBootstrapData onePeerJson)]\<rparr>)"
  by (rule bootstrap_reaches_loop [OF parse_seed _ _ _ read_onePeerResponse _ decode_onePeerResponse])
     (simp_all add: seedOnlyNet_def seedStream_def)

lemma bootstrap_open:
  "bootstrap exampleLib (openNet onePeerResponse) natAddr ''/ip4/10.0.0.1/ipfs/QmS'' m =
     (None, connectLoop exampleLib (openNet onePeerResponse) 1 [oneConnectString]
        \<lparr>peerMap = m,
         trace = [Log (LogSeedConnected ''/ip4/10.0.0.1/ipfs/QmS''), StreamWrite (natAddr @ ''/n''),
                  Log (LogBootstrapData onePeerJson)]\<rparr>)"
  by (rule bootstrap_reaches_loop [OF parse_seed _ _ _ read_onePeerResponse _ decode_onePeerResponse])
     (simp_all add: openNet_def seedStream_def)

lemma bootstrap2_open:
  "bootstrap2 exampleLib (openNet onePeerResponse) ''/ip4/10.0.0.1/ipfs/QmS'' m =
     (None, updatePeer exampleLib onePeerJson
        \<lparr>peerMap = m,
         trace = [Log (LogSeedConnected ''/ip4/10.0.0.1/ipfs/QmS''), StreamWrite (MSG_BOOTSTRAP @ [NL]),
                  Log (LogBootstrapData onePeerJson)]\<rparr>)"
  by (rule bootstrap2_reaches_updatePeer [OF parse_seed _ _ _ read_onePeerResponse])
     (simp_all add: openNet_def seedStream_def)

subsection \<open>Dial failures\<close>

text \<open>
  C2, as the code has it. In the loop of \<open>bootstrap\<close> (first variant) the entries stored
  into the map are exactly those that parse and whose dial succeeds: a failed dial is
  logged and its entry is not stored, and the loop goes on, so every entry ends either
  as a store or as an error line; the map after the loop is the map before with these
  stores applied in order. In \<open>updatePeer\<close> (second variant) nobody is dialled, and
  the entries stored are exactly those that parse.
\<close>

theorem bootstrap_upserts_dialled_entries:
  "set (storesOf (trace (connectLoop l net i xs \<lparr>peerMap = m, trace = []\<rparr>))) =
     {(ID ai, xs ! j) | j ai.
        j < length xs \<and> textToAddrInfo l (xs ! j) = Inr ai \<and> Connect net (i + j) ai = None}
   \<and> peerMap (connectLoop l net i xs \<lparr>peerMap = m, trace = []\<rparr>) =
       m ++ map_of (rev (storesOf (trace (connectLoop l net i xs \<lparr>peerMap = m, trace = []\<rparr>))))
   \<and> length (storesOf (trace (connectLoop l net i xs \<lparr>peerMap = m, trace = []\<rparr>)))
       + length (errorsOf (trace (connectLoop l net i xs \<lparr>peerMap = m, trace = []\<rparr>))) = length xs
   \<and> set (storesOf (trace (updateLoop l xs \<lparr>peerMap = m, trace = []\<rparr>))) =
       {(ID ai, v) | v ai. v \<in> set xs \<and> textToAddrInfo l v = Inr ai}
   \<and> peerMap (updateLoop l xs \<lparr>peerMap = m, trace = []\<rparr>) =
       m ++ map_of (rev (storesOf (trace (updateLoop l xs \<lparr>peerMap = m, trace = []\<rparr>))))"
  using connectLoop_stores_set [of l net i xs "\<lparr>peerMap = m, trace = []\<rparr>"]
    connectLoop_map [of "\<lparr>peerMap = m, trace = []\<rparr>" m l net i xs]
    connectLoop_count [of l net i xs "\<lparr>peerMap = m, trace = []\<rparr>"]
    updateLoop_stores_set [of l xs m]
    updateLoop_map [of "\<lparr>peerMap = m, trace = []\<rparr>" m l xs]
  by simp

text \<open>
  The theorem at a response of two entries, one that does not parse and one that
  does, on a network where every dial succeeds: the second entry is stored by both
  variants.
\<close>

theorem bootstrap_upserts_dialled_entries_witness:
  "peerMap (connectLoop exampleLib (openNet []) 1 [''bad'', oneConnectString]
       \<lparr>peerMap = Map.empty, trace = []\<rparr>) ''QmB'' = Some oneConnectString
   \<and> set (storesOf (trace (connectLoop exampleLib (openNet []) 1 [''bad'', oneConnectString]
       \<lparr>peerMap = Map.empty, trace = []\<rparr>))) = {(''QmB'', oneConnectString)}
   \<and> errorsOf (trace (connectLoop exampleLib (openNet []) 1 [''bad'', oneConnectString]
       \<lparr>peerMap = Map.empty, trace = []\<rparr>)) = [ParseError]
   \<and> peerMap (updateLoop exampleLib [''bad'', oneConnectString]
       \<lparr>peerMap = Map.empty, trace = []\<rparr>) ''QmB'' = Some oneConnectString"
  using bootstrap_upserts_dialled_entries
    [of exampleLib "openNet []" 1 "[''bad'', oneConnectString]" Map.empty]
  by (simp add: parse_bad parse_one Connect_openNet emit_def store_def)

text \<open>
  The claim as stated fails on \<open>bootstrap\<close>: the seed answers with one connect string
  that parses; its dial fails; \<open>bootstrap\<close> returns no error and the entry is not in
  the map.
\<close>

theorem bootstrap_dial_failure_counterexample:
  "textToAddrInfo exampleLib oneConnectString = Inr \<lparr>ID = ''QmB'', Addrs = [oneConnectString]\<rparr>
   \<and> Connect (seedOnlyNet onePeerResponse) 1 \<lparr>ID = ''QmB'', Addrs = [oneConnectString]\<rparr>
       = Some ConnectError
   \<and> fst (bootstrap exampleLib (seedOnlyNet onePeerResponse) [] ''/ip4/10.0.0.1/ipfs/QmS'' Map.empty)
       = None
   \<and> peerMap (snd (bootstrap exampleLib (seedOnlyNet onePeerResponse) [] ''/ip4/10.0.0.1/ipfs/QmS''
       Map.empty)) ''QmB'' = None
   \<and> errorsOf (trace (snd (bootstrap exampleLib (seedOnlyNet onePeerResponse) []
       ''/ip4/10.0.0.1/ipfs/QmS'' Map.empty))) = [ConnectError]"
  by (simp add: bootstrap_seedOnly parse_one Connect_seedOnlyNet emit_def)

subsection \<open>Entries that do not parse\<close>

lemma connectLoop_installs:
  assumes "j < length zs" and "textToAddrInfo l (zs ! j) = Inr ai"
    and "Connect net (i + j) ai = None"
  shows "ID ai \<in> dom (peerMap (connectLoop l net i zs \<lparr>peerMap = m, trace = []\<rparr>))"
proof -
  let ?r = "connectLoop l net i zs \<lparr>peerMap = m, trace = []\<rparr>"
  have "(ID ai, zs ! j) \<in> set (storesOf (trace ?r))"
    using assms connectLoop_stores_set [of l net i zs "\<lparr>peerMap = m, trace = []\<rparr>"] by auto
  then have "ID ai \<in> fst ` set (rev (storesOf (trace ?r)))"
    by force
  then have "ID ai \<in> dom (map_of (rev (storesOf (trace ?r))))"
    by (simp only: dom_map_of_conv_image_fst)
  moreover have "peerMap ?r = m ++ map_of (rev (storesOf (trace ?r)))"
    by (rule connectLoop_map) simp
  ultimately show ?thesis
    by simp
qed

text \<open>
  C7, as the code has it. An entry that does not parse is skipped on its own: the
  loop logs the error and goes on with the entries after it from the state it had
  reached, in both variants. \<open>updatePeer\<close> (second variant) stores the entries that
  parse, all of them and in order, logs one error for each of the others, and the
  key set grows by the ids of the entries that parse. The loop of \<open>bootstrap\<close> (first
  variant) installs every entry that parses and whose dial succeeds.
\<close>

theorem bootstrap_skips_malformed_entries:
  "(textToAddrInfo l v = Inl e \<longrightarrow>
       updateLoop l (xs @ v # ys) n = updateLoop l ys (emit [Log (LogError e)] (updateLoop l xs n))
     \<and> connectLoop l net i (xs @ v # ys) n =
         connectLoop l net (Suc (i + length xs)) ys (emit [Log (LogError e)] (connectLoop l net i xs n)))
   \<and> map snd (storesOf (trace (updateLoop l zs \<lparr>peerMap = m, trace = []\<rparr>)))
       = filter (\<lambda>v. \<not> isl (textToAddrInfo l v)) zs
   \<and> errorsOf (trace (updateLoop l zs \<lparr>peerMap = m, trace = []\<rparr>))
       = map projl (filter isl (map (textToAddrInfo l) zs))
   \<and> dom (peerMap (updateLoop l zs \<lparr>peerMap = m, trace = []\<rparr>))
       = dom m \<union> {ID ai | v ai. v \<in> set zs \<and> textToAddrInfo l v = Inr ai}
   \<and> (\<forall>j ai. j < length zs \<and> textToAddrInfo l (zs ! j) = Inr ai \<and> Connect net (i + j) ai = None
         \<longrightarrow> ID ai \<in> dom (peerMap (connectLoop l net i zs \<lparr>peerMap = m, trace = []\<rparr>)))"
proof -
  have skip: "textToAddrInfo l v = Inl e \<longrightarrow>
       updateLoop l (xs @ v # ys) n = updateLoop l ys (emit [Log (LogError e)] (updateLoop l xs n))
     \<and> connectLoop l net i (xs @ v # ys) n =
         connectLoop l net (Suc (i + length xs)) ys (emit [Log (LogError e)] (connectLoop l net i xs n))"
    using updateLoop_malformed [of l v e xs ys n] connectLoop_malformed [of l v e net i xs ys n]
    by blast
  have stored: "map snd (storesOf (trace (updateLoop l zs \<lparr>peerMap = m, trace = []\<rparr>)))
       = filter (\<lambda>v. \<not> isl (textToAddrInfo l v)) zs"
    by (simp add: updateLoop_stores comp_def)
  have logged: "errorsOf (trace (updateLoop l zs \<lparr>peerMap = m, trace = []\<rparr>))
       = map projl (filter isl (map (textToAddrInfo l) zs))"
    by (simp add: updateLoop_errors)
  have grown: "dom (peerMap (updateLoop l zs \<lparr>peerMap = m, trace = []\<rparr>))
       = dom m \<union> {ID ai | v ai. v \<in> set zs \<and> textToAddrInfo l v = Inr ai}"
    by (simp add: updateLoop_dom)
  have dialled: "\<forall>j ai. j < length zs \<and> textToAddrInfo l (zs ! j) = Inr ai \<and> Connect net (i + j) ai = None
         \<longrightarrow> ID ai \<in> dom (peerMap (connectLoop l net i zs \<lparr>peerMap = m, trace = []\<rparr>))"
    using connectLoop_installs [of _ zs l _ net i m] by blast
  from skip stored logged grown dialled show ?thesis
    by (intro conjI)
qed

text \<open>
  The theorem at the malformed entry \<open>bad\<close> followed by one that parses, every dial
  succeeding.
\<close>

theorem bootstrap_skips_malformed_entries_witness:
  "textToAddrInfo exampleLib ''bad'' = Inl ParseError
   \<and> updateLoop exampleLib ([] @ ''bad'' # [oneConnectString]) \<lparr>peerMap = Map.empty, trace = []\<rparr>
       = \<lparr>peerMap = [''QmB'' \<mapsto> oneConnectString],
          trace = [Log (LogError ParseError), MapStore ''QmB'' oneConnectString]\<rparr>
   \<and> (1::nat) < length [''bad'', oneConnectString]
   \<and> textToAddrInfo exampleLib ([''bad'', oneConnectString] ! 1)
       = Inr \<lparr>ID = ''QmB'', Addrs = [oneConnectString]\<rparr>
   \<and> Connect (openNet []) (1 + 1) \<lparr>ID = ''QmB'', Addrs = [oneConnectString]\<rparr> = None
   \<and> ''QmB'' \<in> dom (peerMap (connectLoop exampleLib (openNet []) 1 [''bad'', oneConnectString]
         \<lparr>peerMap = Map.empty, trace = []\<rparr>))"
proof -
  have c: "Connect (openNet []) (1 + 1) \<lparr>ID = ''QmB'', Addrs = [oneConnectString]\<rparr> = None"
    by (simp add: Connect_openNet)
  have p: "textToAddrInfo exampleLib ([''bad'', oneConnectString] ! 1)
       = Inr \<lparr>ID = ''QmB'', Addrs = [oneConnectString]\<rparr>"
    by (simp add: parse_one)
  have "''QmB'' \<in> dom (peerMap (connectLoop exampleLib (openNet []) 1 [''bad'', oneConnectString]
         \<lparr>peerMap = Map.empty, trace = []\<rparr>))"
    using bootstrap_skips_malformed_entries
      [of exampleLib "''bad''" ParseError "[]" "[oneConnectString]"
        "\<lparr>peerMap = Map.empty, trace = []\<rparr>" "openNet []" 1 "[''bad'', oneConnectString]" Map.empty,
        THEN conjunct2, THEN conjunct2, THEN conjunct2, THEN conjunct2, rule_format,
        of 1 "\<lparr>ID = ''QmB'', Addrs = [oneConnectString]\<rparr>"]
      c p
    by simp
  then show ?thesis
    using c p by (simp add: parse_bad parse_one emit_def store_def)
qed

text \<open>
  The claim as stated fails on the loop of \<open>bootstrap\<close>: of a malformed entry and a
  well-formed one, the well-formed one is not installed when its dial fails, while
  \<open>updatePeer\<close> installs it.
\<close>

theorem bootstrap_wellformed_not_installed_counterexample:
  "textToAddrInfo exampleLib ''bad'' = Inl ParseError
   \<and> textToAddrInfo exampleLib oneConnectString = Inr \<lparr>ID = ''QmB'', Addrs = [oneConnectString]\<rparr>
   \<and> peerMap (connectLoop exampleLib (seedOnlyNet []) 1 [''bad'', oneConnectString]
       \<lparr>peerMap = Map.empty, trace = []\<rparr>) ''QmB'' = None
   \<and> errorsOf (trace (connectLoop exampleLib (seedOnlyNet []) 1 [''bad'', oneConnectString]
       \<lparr>peerMap = Map.empty, trace = []\<rparr>)) = [ParseError, ConnectError]
   \<and> peerMap (updateLoop exampleLib [''bad'', oneConnectString]
       \<lparr>peerMap = Map.empty, trace = []\<rparr>) ''QmB'' = Some oneConnectString"
  by (simp add: parse_bad parse_one Connect_seedOnlyNet emit_def store_def)

section \<open>The request the client writes\<close>

lemma request_not_a_line:
  "NL \<notin> set natAddr \<Longrightarrow> readTextFormStream (s\<lparr>incoming := natAddr @ ''/n''\<rparr>) = Inl EOF"
  by (simp add: readTextFormStream_def ReadString_def NL_def)

text \<open>
  C3 fails on the first variant. \<open>bootstrap\<close> writes once at most, and what it writes
  is its payload followed by the two characters \<open>/\<close> and \<open>n\<close>: the last byte is the
  letter \<open>n\<close>, no newline is written, and a handler that reads this request until the
  stream ends finds no line in it. Here with the payload
  \<^verbatim>\<open>/ip4/10.0.0.9/ipfs/QmN\<close>. The second variant writes its literal and a newline.
\<close>

theorem bootstrap_request_ends_with_slash_n:
  "writesOf (trace (snd (bootstrap exampleLib (openNet onePeerResponse) ''/ip4/10.0.0.9/ipfs/QmN''
       ''/ip4/10.0.0.1/ipfs/QmS'' Map.empty))) = [''/ip4/10.0.0.9/ipfs/QmN/n'']
   \<and> last ''/ip4/10.0.0.9/ipfs/QmN/n'' = CHR ''n''
   \<and> NL \<notin> set ''/ip4/10.0.0.9/ipfs/QmN/n''
   \<and> readTextFormStream ((inboundStream [])\<lparr>incoming := ''/ip4/10.0.0.9/ipfs/QmN/n''\<rparr>) = Inl EOF
   \<and> (writesOf (trace (snd (bootstrap l net natAddr addrText m))) = []
        \<or> writesOf (trace (snd (bootstrap l net natAddr addrText m))) = [natAddr @ ''/n''])
   \<and> last (natAddr @ ''/n'') = CHR ''n''
   \<and> writesOf (trace (snd (bootstrap2 exampleLib (openNet onePeerResponse)
       ''/ip4/10.0.0.1/ipfs/QmS'' Map.empty))) = [MSG_BOOTSTRAP @ [NL]]"
proof -
  have w1: "writesOf (trace (snd (bootstrap exampleLib (openNet onePeerResponse)
       ''/ip4/10.0.0.9/ipfs/QmN'' ''/ip4/10.0.0.1/ipfs/QmS'' Map.empty)))
       = [''/ip4/10.0.0.9/ipfs/QmN/n'']"
    by (simp add: bootstrap_open parse_one Connect_openNet emit_def store_def kind_append)
  have w2: "writesOf (trace (snd (bootstrap2 exampleLib (openNet onePeerResponse)
       ''/ip4/10.0.0.1/ipfs/QmS'' Map.empty))) = [MSG_BOOTSTRAP @ [NL]]"
    by (simp add: bootstrap2_open updatePeer_def decode_onePeerResponse parse_one store_def
        kind_append)
  have nl: "NL \<notin> set ''/ip4/10.0.0.9/ipfs/QmN/n''"
    by (simp add: NL_def)
  have "NL \<notin> set ''/ip4/10.0.0.9/ipfs/QmN''"
    by (simp add: NL_def)
  then have r: "readTextFormStream ((inboundStream [])\<lparr>incoming := ''/ip4/10.0.0.9/ipfs/QmN/n''\<rparr>)
      = Inl EOF"
    using request_not_a_line [of "''/ip4/10.0.0.9/ipfs/QmN''" "inboundStream []"] by simp
  show ?thesis
    using w1 w2 nl r bootstrap_writes_slash_n [of l net natAddr addrText m] by simp
qed

section \<open>The mutex\<close>

lemma heldAfter_append: "heldAfter h (xs @ ys) = heldAfter (heldAfter h xs) ys"
  by (induction h xs rule: heldAfter.induct) simp_all

lemma lockDiscipline_append:
  "lockDiscipline h (xs @ ys) \<longleftrightarrow> lockDiscipline h xs \<and> lockDiscipline (heldAfter h xs) ys"
  by (induction h xs rule: lockDiscipline.induct) simp_all

lemma heldAfter_MapLoad: "heldAfter h (map MapLoad ks) = h"
  by (induction ks) simp_all

lemma lockDiscipline_MapLoad: "h \<noteq> Free \<Longrightarrow> lockDiscipline h (map MapLoad ks)"
  by (induction ks) simp_all

lemma listPeersLoop_locked:
  "lockDiscipline h (trace n) \<Longrightarrow> heldAfter h (trace n) = Exclusive \<Longrightarrow>
   lockDiscipline h (trace (snd (listPeersLoop B idMap n)))
   \<and> heldAfter h (trace (snd (listPeersLoop B idMap n))) = Exclusive"
  by (induction B arbitrary: idMap n)
     (auto simp: emit_def store_def lockDiscipline_append heldAfter_append split: option.splits)

lemma lostLoop_locked:
  "lockDiscipline h (trace n) \<Longrightarrow> heldAfter h (trace n) = Exclusive \<Longrightarrow>
   lockDiscipline h (trace (lostLoop ks idMap n))
   \<and> heldAfter h (trace (lostLoop ks idMap n)) = Exclusive"
  by (induction ks arbitrary: n)
     (auto simp: emit_def delete_def lockDiscipline_append heldAfter_append split: option.splits)

text \<open>The tick and the two handlers make every access to the map under the lock it needs.\<close>

lemma reconcileTick_locked: "lockDiscipline Free (trace (reconcileTick B ks m))"
proof -
  define n1 where "n1 = emit [Lock] \<lparr>peerMap = m, trace = []\<rparr>"
  define n2 where "n2 = snd (listPeersLoop B Map.empty n1)"
  define n3 where "n3 = lostLoop ks (fst (listPeersLoop B Map.empty n1)) n2"
  have "lockDiscipline Free (trace n1)" and "heldAfter Free (trace n1) = Exclusive"
    by (simp_all add: n1_def emit_def)
  then have "lockDiscipline Free (trace n2)" and "heldAfter Free (trace n2) = Exclusive"
    unfolding n2_def using listPeersLoop_locked by blast+
  then have "lockDiscipline Free (trace n3)"
    unfolding n3_def using lostLoop_locked by blast
  moreover have "reconcileTick B ks m = emit [Log (LogCount (card (dom (peerMap n3)))), Unlock] n3"
    by (simp add: reconcileTick_def n1_def n2_def n3_def Let_def split_beta)
  ultimately show ?thesis
    by (simp add: emit_def lockDiscipline_append)
qed

lemma handleBootstrapStream_locked: "lockDiscipline Free (trace (handleBootstrapStream l s ks m))"
  by (simp add: handleBootstrapStream_def Let_def split_beta collectOthers_trace replyPeers_def
      emit_def store_def lockDiscipline_append heldAfter_append heldAfter_MapLoad
      lockDiscipline_MapLoad split: sum.splits option.splits)

lemma handleStream_locked: "lockDiscipline Free (trace (handleStream l s ks m))"
  by (simp add: handleStream_def Let_def split_beta collectOthers_trace replyPeers_def
      emit_def store_def lockDiscipline_append heldAfter_append heldAfter_MapLoad
      lockDiscipline_MapLoad split: sum.splits option.splits prod.splits)

text \<open>
  C4 fails on the bootstrap client. Run against a seed that answers with one connect
  string, on a network where every dial succeeds, \<open>bootstrap\<close> stores the entry into
  the map while it holds no lock, and so does \<open>bootstrap\<close> of the second variant
  through \<open>updatePeer\<close>; the tick and the two handlers do keep the discipline.
\<close>

theorem bootstrap_stores_without_lock:
  "storesOf (trace (snd (bootstrap exampleLib (openNet onePeerResponse) []
       ''/ip4/10.0.0.1/ipfs/QmS'' Map.empty))) = [(''QmB'', oneConnectString)]
   \<and> \<not> lockDiscipline Free (trace (snd (bootstrap exampleLib (openNet onePeerResponse) []
       ''/ip4/10.0.0.1/ipfs/QmS'' Map.empty)))
   \<and> storesOf (trace (snd (bootstrap2 exampleLib (openNet onePeerResponse)
       ''/ip4/10.0.0.1/ipfs/QmS'' Map.empty))) = [(''QmB'', oneConnectString)]
   \<and> \<not> lockDiscipline Free (trace (snd (bootstrap2 exampleLib (openNet onePeerResponse)
       ''/ip4/10.0.0.1/ipfs/QmS'' Map.empty)))
   \<and> lockDiscipline Free (trace (reconcileTick B ks m))
   \<and> lockDiscipline Free (trace (handleBootstrapStream l s ks m))
   \<and> lockDiscipline Free (trace (handleStream l s ks m))"
proof -
  have t1: "trace (snd (bootstrap exampleLib (openNet onePeerResponse) []
       ''/ip4/10.0.0.1/ipfs/QmS'' Map.empty)) =
      [Log (LogSeedConnected ''/ip4/10.0.0.1/ipfs/QmS''), StreamWrite ''/n'',
       Log (LogBootstrapData onePeerJson),
       Log (LogPeerConnected oneConnectString), MapStore ''QmB'' oneConnectString]"
    by (simp add: bootstrap_open parse_one Connect_openNet emit_def store_def)
  have t2: "trace (snd (bootstrap2 exampleLib (openNet onePeerResponse)
       ''/ip4/10.0.0.1/ipfs/QmS'' Map.empty)) =
      [Log (LogSeedConnected ''/ip4/10.0.0.1/ipfs/QmS''), StreamWrite (MSG_BOOTSTRAP @ [NL]),
       Log (LogBootstrapData onePeerJson),
       MapStore ''QmB'' oneConnectString]"
    by (simp add: bootstrap2_open updatePeer_def decode_onePeerResponse parse_one store_def)
  show ?thesis
    unfolding t1 t2
    using reconcileTick_locked [of B ks m] handleBootstrapStream_locked [of l s ks m]
      handleStream_locked [of l s ks m]
    by simp
qed

section \<open>The key set outside the tick\<close>

lemma handleBootstrapStream_grows:
  "dom m \<subseteq> dom (peerMap (handleBootstrapStream l s ks m))"
  by (auto simp: handleBootstrapStream_def Let_def split_beta collectOthers_map replyPeers_def
      emit_def store_def split: sum.splits option.splits)

lemma handleBootstrapStream_deletes:
  "deletesOf (trace (handleBootstrapStream l s ks m)) = []"
  by (simp add: handleBootstrapStream_def Let_def split_beta collectOthers_trace replyPeers_def
      emit_def store_def kind_append kinds_MapLoad split: sum.splits option.splits)

lemma handleStream_grows:
  "dom m \<subseteq> dom (peerMap (handleStream l s ks m))"
  by (auto simp: handleStream_def Let_def split_beta collectOthers_map replyPeers_def
      emit_def store_def split: sum.splits option.splits prod.splits)

lemma handleStream_deletes:
  "deletesOf (trace (handleStream l s ks m)) = []"
  by (simp add: handleStream_def Let_def split_beta collectOthers_trace replyPeers_def
      emit_def store_def kind_append kinds_MapLoad split: sum.splits option.splits prod.splits)

lemma connectLoop_grows:
  "dom m \<subseteq> dom (peerMap (connectLoop l net i xs \<lparr>peerMap = m, trace = t\<rparr>))"
  using connectLoop_dom [of "\<lparr>peerMap = m, trace = t\<rparr>" l net i xs] by simp

lemma bootstrap_grows:
  "dom m \<subseteq> dom (peerMap (snd (bootstrap l net natAddr addrText m)))"
  by (simp add: bootstrap_def Let_def emit_def connectLoop_grows split: sum.splits option.splits)

lemma bootstrap_deletes:
  "deletesOf (trace (snd (bootstrap l net natAddr addrText m))) = []"
  by (simp add: bootstrap_def Let_def emit_def connectLoop_deletes split: sum.splits option.splits)

lemma updatePeer_grows:
  "dom (peerMap n) \<subseteq> dom (peerMap (updatePeer l jsonText n))"
  by (auto simp: updatePeer_def emit_def updateLoop_dom split: sum.splits)

lemma updatePeer_deletes:
  "deletesOf (trace (updatePeer l jsonText n)) = deletesOf (trace n)"
  by (simp add: updatePeer_def emit_def updateLoop_deletes kind_append split: sum.splits)

lemma bootstrap2_grows:
  "dom m \<subseteq> dom (peerMap (snd (bootstrap2 l net maText m)))"
proof -
  have "dom m \<subseteq> dom (peerMap (updatePeer l jsonText \<lparr>peerMap = m, trace = t\<rparr>))"
    for jsonText t
    using updatePeer_grows [of "\<lparr>peerMap = m, trace = t\<rparr>" l jsonText] by simp
  then show ?thesis
    by (simp add: bootstrap2_def Let_def emit_def split: sum.splits option.splits prod.splits)
qed

lemma bootstrap2_deletes:
  "deletesOf (trace (snd (bootstrap2 l net maText m))) = []"
  by (simp add: bootstrap2_def Let_def emit_def updatePeer_deletes
      split: sum.splits option.splits prod.splits)

text \<open>
  C9. Whatever they read and whatever the network does, the two handlers and the
  bootstrap client of both variants (with \<open>updatePeer\<close>) delete nothing from the map,
  and the key set after each of them contains the key set before. Only the tick has
  a \<open>delete\<close>.
\<close>

theorem key_set_grows_outside_tick:
  "dom m \<subseteq> dom (peerMap (handleBootstrapStream l s ks m))
   \<and> deletesOf (trace (handleBootstrapStream l s ks m)) = []
   \<and> dom m \<subseteq> dom (peerMap (handleStream l s ks m))
   \<and> deletesOf (trace (handleStream l s ks m)) = []
   \<and> dom m \<subseteq> dom (peerMap (snd (bootstrap l net natAddr addrText m)))
   \<and> deletesOf (trace (snd (bootstrap l net natAddr addrText m))) = []
   \<and> dom (peerMap n) \<subseteq> dom (peerMap (updatePeer l jsonText n))
   \<and> deletesOf (trace (updatePeer l jsonText n)) = deletesOf (trace n)
   \<and> dom m \<subseteq> dom (peerMap (snd (bootstrap2 l net addrText m)))
   \<and> deletesOf (trace (snd (bootstrap2 l net addrText m))) = []"
  using handleBootstrapStream_grows [of m l s ks] handleBootstrapStream_deletes [of l s ks m]
    handleStream_grows [of m l s ks] handleStream_deletes [of l s ks m]
    bootstrap_grows [of m l net natAddr addrText] bootstrap_deletes [of l net natAddr addrText m]
    updatePeer_grows [of n l jsonText] updatePeer_deletes [of l jsonText n]
    bootstrap2_grows [of m l net addrText] bootstrap2_deletes [of l net addrText m]
  by simp

text \<open>
  The theorem at a map with the key \<open>QmA\<close>: after a discovery request of \<open>QmP\<close> and
  after a bootstrap that learns \<open>QmB\<close>, \<open>QmA\<close> is still a key.
\<close>

theorem key_set_grows_outside_tick_witness:
  "''QmA'' \<in> dom (peerMap (handleBootstrapStream exampleLib (inboundStream ''hello'') [''QmA'', ''QmP'']
       [''QmA'' \<mapsto> ''addrA'']))
   \<and> ''QmA'' \<in> dom (peerMap (handleStream exampleLib (inboundStream MSG_BOOTSTRAP) [''QmA'', ''QmP'']
       [''QmA'' \<mapsto> ''addrA'']))
   \<and> ''QmA'' \<in> dom (peerMap (snd (bootstrap exampleLib (openNet onePeerResponse) []
       ''/ip4/10.0.0.1/ipfs/QmS'' [''QmA'' \<mapsto> ''addrA''])))
   \<and> ''QmA'' \<in> dom (peerMap (snd (bootstrap2 exampleLib (openNet onePeerResponse)
       ''/ip4/10.0.0.1/ipfs/QmS'' [''QmA'' \<mapsto> ''addrA''])))"
  using key_set_grows_outside_tick [of "[''QmA'' \<mapsto> ''addrA'']" exampleLib "inboundStream ''hello''"
      "[''QmA'', ''QmP'']" "openNet onePeerResponse" "[]" "''/ip4/10.0.0.1/ipfs/QmS''"]
    key_set_grows_outside_tick [of "[''QmA'' \<mapsto> ''addrA'']" exampleLib "inboundStream MSG_BOOTSTRAP"
      "[''QmA'', ''QmP'']"]
  by auto

section \<open>The key pair\<close>

text \<open>
  C6, as the code has it. \<open>rsaKey\<close> has no error result and reports no error to its
  caller. When the directory is missing and cannot be created it logs the error and
  returns both keys absent. When the directory exists it returns what decoding the
  bytes read from the two files gave, absent keys included. When the directory is
  missing and is created, and the generator gives a pair, it returns that pair after
  the two file writes; when the generator gives a nil key, the encoder called on it
  panics, before any file is written if the private key is nil. No other error decides
  how \<open>rsaKey\<close> ends: the ending is the same whatever \<open>WriteFile\<close> returns, and whatever
  the error components of the generator, of the two encoders, of \<open>ReadFile\<close> and of
  the two decoders are.
\<close>

theorem rsaKey_reports_no_error:
  "(IsNotExist os (Stat os dir) \<and> MkdirAll os dir = Some e \<longrightarrow>
      rsaKey os dir =
        Returned \<lparr>prKey = None, puKey = None, effects = [LogKeyDir dir, LogMkdirError e]\<rparr>)
   \<and> (IsNotExist os (Stat os dir) \<and> MkdirAll os dir = None
        \<and> GenerateKeyPair os = (Some pr, Some pk, g) \<longrightarrow>
      rsaKey os dir =
        Returned \<lparr>prKey = Some pr, puKey = Some pk,
          effects = [LogKeyDir dir, FileWrite (dir @ ''/private'') (fst (MarshalPrivateKey os pr)),
                     FileWrite (dir @ ''/public'') (fst (MarshalPublicKey os pk))]\<rparr>)
   \<and> (IsNotExist os (Stat os dir) \<and> MkdirAll os dir = None
        \<and> fst (GenerateKeyPair os) = None \<longrightarrow>
      rsaKey os dir = Panicked [LogKeyDir dir])
   \<and> (IsNotExist os (Stat os dir) \<and> MkdirAll os dir = None
        \<and> GenerateKeyPair os = (Some pr, None, g) \<longrightarrow>
      rsaKey os dir =
        Panicked [LogKeyDir dir, FileWrite (dir @ ''/private'') (fst (MarshalPrivateKey os pr))])
   \<and> (\<not> IsNotExist os (Stat os dir) \<longrightarrow>
      rsaKey os dir =
        Returned \<lparr>prKey = fst (UnmarshalPrivateKey os (fst (ReadFile os (dir @ ''/private'')))),
          puKey = fst (UnmarshalPublicKey os (fst (ReadFile os (dir @ ''/public'')))),
          effects = [LogKeyDir dir]\<rparr>)
   \<and> rsaKey (os\<lparr>WriteFile := w\<rparr>) dir = rsaKey os dir
   \<and> rsaKey (os\<lparr>GenerateKeyPair := (fst (GenerateKeyPair os), fst (snd (GenerateKeyPair os)), g'),
                 MarshalPrivateKey := (\<lambda>k. (fst (MarshalPrivateKey os k), a k)),
                 MarshalPublicKey := (\<lambda>k. (fst (MarshalPublicKey os k), b k)),
                 ReadFile := (\<lambda>p. (fst (ReadFile os p), r p)),
                 UnmarshalPrivateKey := (\<lambda>bs. (fst (UnmarshalPrivateKey os bs), c bs)),
                 UnmarshalPublicKey := (\<lambda>bs. (fst (UnmarshalPublicKey os bs), d bs))\<rparr>) dir
       = rsaKey os dir"
  by (auto simp: rsaKey_def Let_def split: option.splits prod.splits)

text \<open>
  The theorem where the directory cannot be created, where it is created and the
  generator gives a pair, gives nothing, or gives a private key only, and where the
  directory exists.
\<close>

lemma example_os:
  "IsNotExist mkdirFails (Stat mkdirFails dir)" "MkdirAll mkdirFails dir = Some IOError"
  "IsNotExist freshDir (Stat freshDir dir)" "MkdirAll freshDir dir = None"
  "fst (GenerateKeyPair freshDir) = None"
  "IsNotExist freshKeys (Stat freshKeys dir)" "MkdirAll freshKeys dir = None"
  "GenerateKeyPair freshKeys = (Some (PrivKey ''d''), Some (PubKey ''e''), None)"
  "MarshalPrivateKey freshKeys k = (''private bytes'', None)"
  "MarshalPublicKey freshKeys q = (''public bytes'', None)"
  "IsNotExist halfPair (Stat halfPair dir)" "MkdirAll halfPair dir = None"
  "GenerateKeyPair halfPair = (Some (PrivKey ''d''), None, Some IOError)"
  "MarshalPrivateKey halfPair k = (''private bytes'', None)"
  "\<not> IsNotExist corruptKeys (Stat corruptKeys dir)"
  "ReadFile corruptKeys p = (''garbage'', None)"
  "UnmarshalPrivateKey corruptKeys bs = (None, Some DecodeError)"
  "UnmarshalPublicKey corruptKeys bs = (None, Some DecodeError)"
  by (simp_all add: mkdirFails_def freshDir_def freshKeys_def halfPair_def corruptKeys_def
      noKeys_def)

theorem rsaKey_reports_no_error_witness:
  "IsNotExist mkdirFails (Stat mkdirFails ''./config/rsa'')
   \<and> MkdirAll mkdirFails ''./config/rsa'' = Some IOError
   \<and> rsaKey mkdirFails ''./config/rsa''
       = Returned \<lparr>prKey = None, puKey = None,
           effects = [LogKeyDir ''./config/rsa'', LogMkdirError IOError]\<rparr>
   \<and> IsNotExist freshKeys (Stat freshKeys ''./config/rsa'')
   \<and> MkdirAll freshKeys ''./config/rsa'' = None
   \<and> GenerateKeyPair freshKeys = (Some (PrivKey ''d''), Some (PubKey ''e''), None)
   \<and> rsaKey freshKeys ''./config/rsa''
       = Returned \<lparr>prKey = Some (PrivKey ''d''), puKey = Some (PubKey ''e''),
           effects = [LogKeyDir ''./config/rsa'',
                      FileWrite ''./config/rsa/private'' ''private bytes'',
                      FileWrite ''./config/rsa/public'' ''public bytes'']\<rparr>
   \<and> IsNotExist freshDir (Stat freshDir ''./config/rsa'')
   \<and> MkdirAll freshDir ''./config/rsa'' = None
   \<and> fst (GenerateKeyPair freshDir) = None
   \<and> rsaKey freshDir ''./config/rsa'' = Panicked [LogKeyDir ''./config/rsa'']
   \<and> IsNotExist halfPair (Stat halfPair ''./config/rsa'')
   \<and> MkdirAll halfPair ''./config/rsa'' = None
   \<and> GenerateKeyPair halfPair = (Some (PrivKey ''d''), None, Some IOError)
   \<and> rsaKey halfPair ''./config/rsa''
       = Panicked [LogKeyDir ''./config/rsa'', FileWrite ''./config/rsa/private'' ''private bytes'']
   \<and> \<not> IsNotExist corruptKeys (Stat corruptKeys ''./config/rsa'')
   \<and> rsaKey corruptKeys ''./config/rsa''
       = Returned \<lparr>prKey = None, puKey = None, effects = [LogKeyDir ''./config/rsa'']\<rparr>"
  using rsaKey_reports_no_error [of mkdirFails "''./config/rsa''" IOError]
    rsaKey_reports_no_error [of freshKeys "''./config/rsa''" _ "PrivKey ''d''" "PubKey ''e''" None]
    rsaKey_reports_no_error [of freshDir "''./config/rsa''"]
    rsaKey_reports_no_error [of halfPair "''./config/rsa''" _ "PrivKey ''d''" _ "Some IOError"]
    rsaKey_reports_no_error [of corruptKeys "''./config/rsa''"]
  by (simp add: example_os)

text \<open>
  The claim as stated fails: where the directory cannot be created, and where the
  stored bytes are not keys, \<open>rsaKey\<close> returns to its caller with both keys absent and
  nothing that says an error happened.
\<close>

theorem rsaKey_absent_keys_counterexample:
  "IsNotExist mkdirFails (Stat mkdirFails ''./config/rsa'')
   \<and> MkdirAll mkdirFails ''./config/rsa'' = Some IOError
   \<and> rsaKey mkdirFails ''./config/rsa''
       = Returned \<lparr>prKey = None, puKey = None,
           effects = [LogKeyDir ''./config/rsa'', LogMkdirError IOError]\<rparr>
   \<and> ReadFile corruptKeys ''./config/rsa/private'' = (''garbage'', None)
   \<and> UnmarshalPrivateKey corruptKeys ''garbage'' = (None, Some DecodeError)
   \<and> UnmarshalPublicKey corruptKeys ''garbage'' = (None, Some DecodeError)
   \<and> rsaKey corruptKeys ''./config/rsa''
       = Returned \<lparr>prKey = None, puKey = None, effects = [LogKeyDir ''./config/rsa'']\<rparr>"
  by (simp add: rsaKey_def example_os)

end
